theory Spec2Isabelle
  imports Main "HOL-Library.Sublist" "HOL-Library.AList"
begin

section \<open>Python strings\<close>

text \<open>
  Python \<open>str\<close> values are modelled as \<^typ>\<open>string\<close>. The case conversions are
  the ASCII ones: a character outside \<open>A-Z\<close> / \<open>a-z\<close> is left alone.
\<close>

abbreviation (input) NL :: string where "NL \<equiv> [CHR 0x0A]"
abbreviation (input) SQ :: string where "SQ \<equiv> [CHR 0x27]"
abbreviation (input) DQ :: string where "DQ \<equiv> [CHR 0x22]"

definition upper_letters :: string where
  "upper_letters = ''ABCDEFGHIJKLMNOPQRSTUVWXYZ''"

definition lower_letters :: string where
  "lower_letters = ''abcdefghijklmnopqrstuvwxyz''"

definition lower_char :: "char \<Rightarrow> char" where
  "lower_char c = (case map_of (zip upper_letters lower_letters) c of Some d \<Rightarrow> d | None \<Rightarrow> c)"

definition upper_char :: "char \<Rightarrow> char" where
  "upper_char c = (case map_of (zip lower_letters upper_letters) c of Some d \<Rightarrow> d | None \<Rightarrow> c)"

text \<open>\<open>s.lower()\<close>, \<open>s.upper()\<close>, \<open>s.capitalize()\<close>.\<close>

definition lower :: "string \<Rightarrow> string" where
  "lower s = map lower_char s"

definition upper :: "string \<Rightarrow> string" where
  "upper s = map upper_char s"

definition capitalize :: "string \<Rightarrow> string" where
  "capitalize s = (case s of [] \<Rightarrow> [] | c # cs \<Rightarrow> upper_char c # lower cs)"

text \<open>\<open>needle in hay\<close> on strings: \<open>needle\<close> occurs as a contiguous piece of \<open>hay\<close>.\<close>

fun contains :: "string \<Rightarrow> string \<Rightarrow> bool" where
  "contains needle [] = (needle = [])"
| "contains needle (c # cs) = (prefix needle (c # cs) \<or> contains needle cs)"

text \<open>\<open>s.endswith(x)\<close>.\<close>

definition endswith :: "string \<Rightarrow> string \<Rightarrow> bool" where
  "endswith s x = prefix (rev x) (rev s)"

text \<open>\<open>sep.join(xs)\<close>.\<close>

fun join :: "string \<Rightarrow> string list \<Rightarrow> string" where
  "join sep [] = []"
| "join sep [x] = x"
| "join sep (x # y # ys) = x @ sep @ join sep (y # ys)"

text \<open>
  \<open>s.replace(old, new)\<close>: the occurrences of \<open>old\<close> are found from the left and do
  not overlap; with an empty \<open>old\<close>, \<open>new\<close> is put before every character and at
  the end.
\<close>

function replace :: "string \<Rightarrow> string \<Rightarrow> string \<Rightarrow> string" where
  "replace old new s =
     (if old = [] then new @ concat (map (\<lambda>c. c # new) s)
      else if s = [] then []
      else if prefix old s then new @ replace old new (drop (length old) s)
      else hd s # replace old new (tl s))"
  by pat_completeness auto
termination
  by (relation "measure (\<lambda>(old, new, s). length s)") (auto simp: neq_Nil_conv)

declare replace.simps [simp del]

section \<open>Parsed documents\<close>

text \<open>
  What \<open>json.loads\<close> and \<open>yaml.safe_load\<close> return: nested dictionaries, lists and
  scalars. A dictionary is the list of its items in insertion order; its keys are
  strings and, in a parsed document, pairwise distinct. Numbers are the integers.
\<close>

datatype json =
    JNull
  | JBool bool
  | JNum int
  | JStr string
  | JArr "json list"
  | JObj "(string \<times> json) list"

text \<open>
  The exceptions of the model. \<open>Exception msg\<close> is the plain \<open>Exception\<close> the
  program raises itself, with its message. \<open>Unmodelled\<close> is not a Python exception:
  it marks the inputs the model does not follow (a value other than a string inside
  an f-string, a parameter name that is a scalar other than a string).
\<close>

datatype error =
    KeyError
  | IndexError
  | TypeError
  | AttributeError
  | OSError
  | Exception string
  | Unmodelled

text \<open>Truth value of an object, as \<open>if x:\<close> tests it.\<close>

fun truthy :: "json \<Rightarrow> bool" where
  "truthy JNull = False"
| "truthy (JBool b) = b"
| "truthy (JNum n) = (n \<noteq> 0)"
| "truthy (JStr s) = (s \<noteq> [])"
| "truthy (JArr xs) = (xs \<noteq> [])"
| "truthy (JObj kvs) = (kvs \<noteq> [])"

text \<open>\<open>x.get(k, d)\<close>: only a dictionary has the method.\<close>

fun dict_get :: "json \<Rightarrow> string \<Rightarrow> json \<Rightarrow> error + json" where
  "dict_get (JObj kvs) k d = Inr (case map_of kvs k of Some v \<Rightarrow> v | None \<Rightarrow> d)"
| "dict_get _ k d = Inl AttributeError"

text \<open>\<open>x[k]\<close> with a string \<open>k\<close>.\<close>

fun getitem :: "json \<Rightarrow> string \<Rightarrow> error + json" where
  "getitem (JObj kvs) k = (case map_of kvs k of Some v \<Rightarrow> Inr v | None \<Rightarrow> Inl KeyError)"
| "getitem _ k = Inl TypeError"

text \<open>\<open>x[0]\<close>.\<close>

fun getitem0 :: "json \<Rightarrow> error + json" where
  "getitem0 (JArr []) = Inl IndexError"
| "getitem0 (JArr (v # vs)) = Inr v"
| "getitem0 (JStr []) = Inl IndexError"
| "getitem0 (JStr (c # cs)) = Inr (JStr [c])"
| "getitem0 (JObj kvs) = Inl KeyError"
| "getitem0 _ = Inl TypeError"

text \<open>\<open>x.items()\<close>.\<close>

fun items :: "json \<Rightarrow> error + (string \<times> json) list" where
  "items (JObj kvs) = Inr kvs"
| "items _ = Inl AttributeError"

text \<open>The values \<open>for p in x\<close> runs through.\<close>

fun iterate :: "json \<Rightarrow> error + json list" where
  "iterate (JArr xs) = Inr xs"
| "iterate (JObj kvs) = Inr (map (\<lambda>kv. JStr (fst kv)) kvs)"
| "iterate (JStr s) = Inr (map (\<lambda>c. JStr [c]) s)"
| "iterate _ = Inl TypeError"

text \<open>A value inside an f-string; the model follows strings only.\<close>

fun format_value :: "json \<Rightarrow> error + string" where
  "format_value (JStr s) = Inr s"
| "format_value _ = Inl Unmodelled"

section \<open>Endpoint extraction\<close>

record endpoint =
  ep_method :: string
  ep_path :: string
  ep_summary :: json
  ep_operationId :: json
  ep_parameters :: json

definition http_methods :: "string list" where
  "http_methods = [''get'', ''post'', ''put'', ''delete'', ''patch'', ''options'', ''head'']"

text \<open>The inner loop of \<open>list_endpoints\<close>, over the items of one path.\<close>

fun methods_loop :: "string \<Rightarrow> (string \<times> json) list \<Rightarrow> endpoint list \<Rightarrow> error + endpoint list" where
  "methods_loop path [] endpoints = Inr endpoints"
| "methods_loop path ((method, operation) # rest) endpoints =
     (if lower method \<notin> set http_methods then methods_loop path rest endpoints
      else case dict_get operation ''summary'' (JStr []) of
        Inl e \<Rightarrow> Inl e
      | Inr summary \<Rightarrow>
         (case dict_get operation ''parameters'' (JArr []) of
            Inl e \<Rightarrow> Inl e
          | Inr parameters \<Rightarrow>
             (case dict_get operation ''operationId'' (JStr []) of
                Inl e \<Rightarrow> Inl e
              | Inr operation_id \<Rightarrow>
                  methods_loop path rest
                    (endpoints @
                      [\<lparr>ep_method = upper method, ep_path = path, ep_summary = summary,
                        ep_operationId = operation_id, ep_parameters = parameters\<rparr>]))))"

text \<open>The outer loop, over the items of \<open>paths\<close>.\<close>

fun paths_loop :: "(string \<times> json) list \<Rightarrow> endpoint list \<Rightarrow> error + endpoint list" where
  "paths_loop [] endpoints = Inr endpoints"
| "paths_loop ((path, methods) # rest) endpoints =
     (case items methods of
        Inl e \<Rightarrow> Inl e
      | Inr ms \<Rightarrow>
         (case methods_loop path ms endpoints of
            Inl e \<Rightarrow> Inl e
          | Inr endpoints' \<Rightarrow> paths_loop rest endpoints'))"

definition list_endpoints :: "json \<Rightarrow> error + endpoint list" where
  "list_endpoints spec =
     (case dict_get spec ''paths'' (JObj []) of
        Inl e \<Rightarrow> Inl e
      | Inr paths \<Rightarrow>
         (case items paths of
            Inl e \<Rightarrow> Inl e
          | Inr ps \<Rightarrow> paths_loop ps []))"

section \<open>Standard-library text functions\<close>

text \<open>
  \<open>json.dumps\<close> on a dictionary from strings to strings, with the library's
  defaults: items separated by a comma and a space, key and value by a colon and a
  space, and inside a string every character other than the printable ASCII ones
  escaped, as well as the double quote and the backslash.
\<close>

definition hex_digit :: "nat \<Rightarrow> char" where
  "hex_digit n = ''0123456789abcdef'' ! (n mod 16)"

definition json_escape_char :: "char \<Rightarrow> string" where
  "json_escape_char c =
     (if c = CHR 0x22 then [CHR 0x5C, CHR 0x22]
      else if c = CHR 0x5C then [CHR 0x5C, CHR 0x5C]
      else if c = CHR 0x0A then [CHR 0x5C, CHR ''n'']
      else if c = CHR 0x0D then [CHR 0x5C, CHR ''r'']
      else if c = CHR 0x09 then [CHR 0x5C, CHR ''t'']
      else if c = CHR 0x08 then [CHR 0x5C, CHR ''b'']
      else if c = CHR 0x0C then [CHR 0x5C, CHR ''f'']
      else if (of_char c :: nat) < 32 \<or> 126 < (of_char c :: nat)
        then [CHR 0x5C, CHR ''u'', CHR ''0'', CHR ''0'',
              hex_digit (of_char c div 16), hex_digit (of_char c)]
      else [c])"

definition json_dumps_str :: "string \<Rightarrow> string" where
  "json_dumps_str s = DQ @ concat (map json_escape_char s) @ DQ"

definition json_dumps :: "(string \<times> string) list \<Rightarrow> string" where
  "json_dumps d =
     ''{'' @ join '', '' (map (\<lambda>(k, v). json_dumps_str k @ '': '' @ json_dumps_str v) d) @ ''}''"





section \<open>The renderers\<close>

text \<open>
  The body parameter is \<open>None\<close> or a string; it counts as present when it is a
  non-empty string. The three dictionaries are lists of items in insertion order.
\<close>

definition present :: "string option \<Rightarrow> bool" where
  "present body_param = (case body_param of None \<Rightarrow> False | Some b \<Rightarrow> b \<noteq> [])"

definition str_of :: "string option \<Rightarrow> string" where
  "str_of body_param = (case body_param of None \<Rightarrow> ''None'' | Some b \<Rightarrow> b)"

definition query_string :: "(string \<times> string) list \<Rightarrow> string" where
  "query_string query_params = join ''&'' (map (\<lambda>(k, v). k @ ''='' @ v) query_params)"

definition generate_python_code ::
  "string \<Rightarrow> string \<Rightarrow> (string \<times> string) list \<Rightarrow> (string \<times> string) list \<Rightarrow> string option \<Rightarrow>
   (string \<times> string) list \<Rightarrow> string" where
  \<open>generate_python_code url method query_params header_params body_param form_params =
     ''import requests'' @ NL @ NL @
     ''url = '' @ SQ @ url @ SQ @ NL @
     (if query_params \<noteq> [] then ''params = '' @ json_dumps query_params @ NL
      else ''params = {}'' @ NL) @
     (if header_params \<noteq> [] then ''headers = '' @ json_dumps header_params @ NL
      else ''headers = {}'' @ NL) @
     (if present body_param then ''json_body = '' @ str_of body_param @ NL
      else ''json_body = None'' @ NL) @
     (if form_params \<noteq> [] then ''data = '' @ json_dumps form_params @ NL
      else ''data = None'' @ NL) @
     ''response = requests.'' @ method @ ''('' @ NL @
     ''    url,'' @ NL @
     ''    params=params,'' @ NL @
     ''    headers=headers,'' @ NL @
     (if present body_param then ''    json=json_body,'' @ NL else []) @
     (if form_params \<noteq> [] then ''    data=data,'' @ NL else []) @
     '')'' @ NL @
     ''print('Status Code:', response.status_code)'' @ NL @
     ''print('Response Body:', response.text)'' @ NL\<close>

definition generate_csharp_code ::
  "string \<Rightarrow> string \<Rightarrow> (string \<times> string) list \<Rightarrow> (string \<times> string) list \<Rightarrow> string option \<Rightarrow>
   (string \<times> string) list \<Rightarrow> string" where
  \<open>generate_csharp_code url method query_params header_params body_param form_params =
     ''using System;'' @ NL @ ''using System.Net.Http;'' @ NL @
     ''using System.Threading.Tasks;'' @ NL @ ''using Newtonsoft.Json;'' @ NL @ NL @
     ''class Program'' @ NL @ ''{'' @ NL @
     ''    static async Task Main(string[] args)'' @ NL @ ''    {'' @ NL @
     ''        var client = new HttpClient();'' @ NL @
     ''        var url = "'' @ url @ ''";'' @ NL @
     (if query_params \<noteq> [] then
        ''        url += "?'' @ query_string query_params @ ''";'' @ NL
      else []) @
     (if header_params \<noteq> [] then
        concat (map (\<lambda>(k, v).
          ''        client.DefaultRequestHeaders.Add("'' @ k @ ''", "'' @ v @ ''");'' @ NL)
          header_params)
      else []) @
     (if present body_param then
        ''        var jsonBody = '' @ str_of body_param @ '';'' @ NL @
        ''        var content = new StringContent(JsonConvert.SerializeObject(jsonBody), System.Text.Encoding.UTF8, "application/json");'' @ NL
      else if form_params \<noteq> [] then
        ''        var content = new FormUrlEncodedContent(new[]'' @ NL @ ''        {'' @ NL @
        concat (map (\<lambda>(k, v).
          ''            new KeyValuePair<string, string>("'' @ k @ ''", "'' @ v @ ''"),'' @ NL)
          form_params) @
        ''        });'' @ NL
      else ''        HttpContent content = null;'' @ NL) @
     ''        var response = await client.'' @ capitalize method @ ''Async(url, content);'' @ NL @
     ''        var responseString = await response.Content.ReadAsStringAsync();'' @ NL @
     ''        Console.WriteLine($"Status Code: {response.StatusCode}");'' @ NL @
     ''        Console.WriteLine($"Response Body: {responseString}");'' @ NL @
     ''    }'' @ NL @ ''}'' @ NL\<close>

definition generate_javascript_code ::
  "string \<Rightarrow> string \<Rightarrow> (string \<times> string) list \<Rightarrow> (string \<times> string) list \<Rightarrow> string option \<Rightarrow>
   (string \<times> string) list \<Rightarrow> string" where
  \<open>generate_javascript_code url method query_params header_params body_param form_params =
     ''const fetch = require('node-fetch');'' @ NL @ NL @
     ''let url = '' @ SQ @ url @ SQ @ '';'' @ NL @
     (if query_params \<noteq> [] then
        ''url += '' @ SQ @ ''?'' @ query_string query_params @ SQ @ '';'' @ NL
      else []) @
     ''const options = {'' @ NL @
     ''    method: '' @ SQ @ upper method @ SQ @ '','' @ NL @
     (if header_params \<noteq> [] then
        ''    headers: {'' @ NL @
        concat (map (\<lambda>(k, v).
          ''        '' @ SQ @ k @ SQ @ '': '' @ SQ @ v @ SQ @ '','' @ NL) header_params) @
        ''    },'' @ NL
      else []) @
     (if present body_param then
        ''    body: JSON.stringify('' @ str_of body_param @ ''),'' @ NL
      else if form_params \<noteq> [] then
        ''    body: new URLSearchParams({'' @ NL @
        concat (map (\<lambda>(k, v).
          ''        '' @ SQ @ k @ SQ @ '': '' @ SQ @ v @ SQ @ '','' @ NL) form_params) @
        ''    }),'' @ NL
      else []) @
     ''};'' @ NL @
     ''fetch(url, options)'' @ NL @
     ''    .then(response => response.text())'' @ NL @
     ''    .then(text => {'' @ NL @
     ''        console.log('Response Body:', text);'' @ NL @
     ''    })'' @ NL @
     ''    .catch(err => console.error('Error:', err));'' @ NL\<close>

definition generate_php_code ::
  "string \<Rightarrow> string \<Rightarrow> (string \<times> string) list \<Rightarrow> (string \<times> string) list \<Rightarrow> string option \<Rightarrow>
   (string \<times> string) list \<Rightarrow> string" where
  \<open>generate_php_code url method query_params header_params body_param form_params =
     ''<?php'' @ NL @
     ''$ch = curl_init();'' @ NL @
     (if query_params \<noteq> [] then
        ''$url = '' @ SQ @ url @ ''?'' @ query_string query_params @ SQ @ '';'' @ NL
      else ''$url = '' @ SQ @ url @ SQ @ '';'' @ NL) @
     ''curl_setopt($ch, CURLOPT_URL, $url);'' @ NL @
     ''curl_setopt($ch, CURLOPT_CUSTOMREQUEST, '' @ SQ @ upper method @ SQ @ '');'' @ NL @
     ''curl_setopt($ch, CURLOPT_RETURNTRANSFER, true);'' @ NL @
     (if header_params \<noteq> [] then
        ''$headers = ['' @ NL @
        concat (map (\<lambda>(k, v). ''    '' @ SQ @ k @ '': '' @ v @ SQ @ '','' @ NL) header_params) @
        ''];'' @ NL @
        ''curl_setopt($ch, CURLOPT_HTTPHEADER, $headers);'' @ NL
      else []) @
     (if present body_param then
        ''$data = json_encode('' @ str_of body_param @ '');'' @ NL @
        ''curl_setopt($ch, CURLOPT_POSTFIELDS, $data);'' @ NL
      else if form_params \<noteq> [] then
        ''$data = http_build_query(['' @ NL @
        concat (map (\<lambda>(k, v). ''    '' @ SQ @ k @ SQ @ '' => '' @ SQ @ v @ SQ @ '','' @ NL)
          form_params) @
        '']);'' @ NL @
        ''curl_setopt($ch, CURLOPT_POSTFIELDS, $data);'' @ NL
      else []) @
     ''$response = curl_exec($ch);'' @ NL @
     ''curl_close($ch);'' @ NL @
     ''echo 'Response Body: ' . $response;'' @ NL @
     ''?>'' @ NL\<close>

section \<open>Script generation\<close>

text \<open>
  Lines 69 to 77 of \<open>generate_script\<close>: the base URL. The result of the first branch
  is whatever the document holds under \<open>url\<close>; the second branch builds a string.
\<close>

definition resolve_base_url :: "json \<Rightarrow> error + json" where
  "resolve_base_url spec =
     (case dict_get spec ''servers'' (JArr []) of
        Inl e \<Rightarrow> Inl e
      | Inr servers \<Rightarrow>
         if truthy servers then
           (case getitem0 servers of
              Inl e \<Rightarrow> Inl e
            | Inr server \<Rightarrow> getitem server ''url'')
         else
           (case dict_get spec ''host'' (JStr []) of
              Inl e \<Rightarrow> Inl e
            | Inr host \<Rightarrow>
           (case dict_get spec ''basePath'' (JStr []) of
              Inl e \<Rightarrow> Inl e
            | Inr base_path \<Rightarrow>
           (case dict_get spec ''schemes'' (JArr [JStr ''https'']) of
              Inl e \<Rightarrow> Inl e
            | Inr schemes \<Rightarrow>
           (case getitem0 schemes of
              Inl e \<Rightarrow> Inl e
            | Inr scheme \<Rightarrow>
           (case format_value scheme of
              Inl e \<Rightarrow> Inl e
            | Inr s \<Rightarrow>
           (case format_value host of
              Inl e \<Rightarrow> Inl e
            | Inr h \<Rightarrow>
           (case format_value base_path of
              Inl e \<Rightarrow> Inl e
            | Inr b \<Rightarrow> Inr (JStr (s @ ''://'' @ h @ b))))))))))"

text \<open>\<open>spec['paths'][path][method]\<close>.\<close>

definition lookup_operation :: "json \<Rightarrow> string \<Rightarrow> string \<Rightarrow> error + json" where
  "lookup_operation spec path method =
     (case getitem spec ''paths'' of
        Inl e \<Rightarrow> Inl e
      | Inr paths \<Rightarrow>
         (case getitem paths path of
            Inl e \<Rightarrow> Inl e
          | Inr methods \<Rightarrow> getitem methods method))"

text \<open>\<open>base_url + path\<close>, where \<open>path\<close> is a string.\<close>

fun str_add :: "json \<Rightarrow> string \<Rightarrow> error + string" where
  "str_add (JStr b) path = Inr (b @ path)"
| "str_add _ path = Inl TypeError"

text \<open>The five local variables the parameter loop fills.\<close>

record buckets =
  b_path :: "(string \<times> string) list"
  b_query :: "(string \<times> string) list"
  b_header :: "(string \<times> string) list"
  b_body :: "string option"
  b_form :: "(string \<times> string) list"

definition no_buckets :: buckets where
  "no_buckets = \<lparr>b_path = [], b_query = [], b_header = [], b_body = None, b_form = []\<rparr>"

text \<open>
  One round of the loop of lines 93 to 105, for a parameter whose name is the string
  \<open>name\<close> and whose \<open>in\<close> entry is \<open>loc\<close>. \<open>d[k] = v\<close> on a dictionary is
  \<^const>\<open>AList.update\<close>: the value is replaced where the key is, or the item is added
  at the end.
\<close>

definition put_param :: "string \<Rightarrow> string \<Rightarrow> json \<Rightarrow> buckets \<Rightarrow> buckets" where
  "put_param name val loc b =
     (if loc = JStr ''path'' then b\<lparr>b_path := b_path b @ [(name, val)]\<rparr>
      else if loc = JStr ''query'' then b\<lparr>b_query := AList.update name val (b_query b)\<rparr>
      else if loc = JStr ''header'' then b\<lparr>b_header := AList.update name val (b_header b)\<rparr>
      else if loc = JStr ''body'' then b\<lparr>b_body := Some val\<rparr>
      else if loc = JStr ''formData'' then b\<lparr>b_form := AList.update name val (b_form b)\<rparr>
      else b)"

text \<open>
  The loop. \<open>param_values.get(name, '')\<close> needs a hashable \<open>name\<close>: a list or a
  dictionary raises \<open>TypeError\<close>. The values of \<open>param_values\<close> are strings.
\<close>

fun bucket_params :: "(string \<rightharpoonup> string) \<Rightarrow> json list \<Rightarrow> buckets \<Rightarrow> error + buckets" where
  "bucket_params param_values [] b = Inr b"
| "bucket_params param_values (param # rest) b =
     (case getitem param ''name'' of
        Inl e \<Rightarrow> Inl e
      | Inr (JStr name) \<Rightarrow>
         (let val = (case param_values name of Some v \<Rightarrow> v | None \<Rightarrow> [])
          in case getitem param ''in'' of
               Inl e \<Rightarrow> Inl e
             | Inr loc \<Rightarrow> bucket_params param_values rest (put_param name val loc b))
      | Inr (JArr _) \<Rightarrow> Inl TypeError
      | Inr (JObj _) \<Rightarrow> Inl TypeError
      | Inr _ \<Rightarrow> Inl Unmodelled)"

text \<open>Lines 108 and 109: the placeholders, one path parameter after the other.\<close>

fun substitute_path :: "(string \<times> string) list \<Rightarrow> string \<Rightarrow> string" where
  "substitute_path [] url = url"
| "substitute_path ((name, val) # rest) url =
     substitute_path rest (replace (''{'' @ name @ ''}'') val url)"

text \<open>Lines 112 to 121: the choice of the renderer.\<close>

definition render :: "string \<Rightarrow> string \<Rightarrow> string \<Rightarrow> buckets \<Rightarrow> error + string" where
  "render language url method b =
     (if language = ''Python'' then
        Inr (generate_python_code url method (b_query b) (b_header b) (b_body b) (b_form b))
      else if language = ''C#'' then
        Inr (generate_csharp_code url method (b_query b) (b_header b) (b_body b) (b_form b))
      else if language = ''JavaScript'' then
        Inr (generate_javascript_code url method (b_query b) (b_header b) (b_body b) (b_form b))
      else if language = ''PHP'' then
        Inr (generate_php_code url method (b_query b) (b_header b) (b_body b) (b_form b))
      else Inl (Exception (''Unsupported language: '' @ language)))"

text \<open>
  Lines 69 to 109: everything \<open>generate_script\<close> does before it chooses the
  renderer. The result is the URL after substitution, the method in lower case and
  the filled variables.
\<close>

definition bind_request ::
  "json \<Rightarrow> endpoint \<Rightarrow> (string \<rightharpoonup> string) \<Rightarrow> error + (string \<times> string \<times> buckets)" where
  "bind_request spec endpoint param_values =
     (case resolve_base_url spec of
        Inl e \<Rightarrow> Inl e
      | Inr base_url \<Rightarrow>
     (let method = lower (ep_method endpoint); path = ep_path endpoint
      in case lookup_operation spec path method of
        Inl e \<Rightarrow> Inl e
      | Inr operation \<Rightarrow>
     (case str_add base_url path of
        Inl e \<Rightarrow> Inl e
      | Inr url \<Rightarrow>
     (case dict_get operation ''parameters'' (JArr []) of
        Inl e \<Rightarrow> Inl e
      | Inr parameters \<Rightarrow>
     (case iterate parameters of
        Inl e \<Rightarrow> Inl e
      | Inr params \<Rightarrow>
     (case bucket_params param_values params no_buckets of
        Inl e \<Rightarrow> Inl e
      | Inr b \<Rightarrow> Inr (substitute_path (b_path b) url, method, b)))))))"

definition generate_script ::
  "json \<Rightarrow> endpoint \<Rightarrow> (string \<rightharpoonup> string) \<Rightarrow> string \<Rightarrow> error + string" where
  "generate_script spec endpoint param_values language =
     (case bind_request spec endpoint param_values of
        Inl e \<Rightarrow> Inl e
      | Inr (url, method, b) \<Rightarrow> render language url method b)"

section \<open>Writing the script\<close>

text \<open>
  The files on disk, and the paths \<open>open(filename, 'w')\<close> can open. \<open>save_script\<close>
  overwrites the file.
\<close>

record filesystem =
  fs_files :: "string \<rightharpoonup> string"
  fs_writable :: "string \<Rightarrow> bool"

definition save_script :: "filesystem \<Rightarrow> string \<Rightarrow> string \<Rightarrow> error + filesystem" where
  "save_script fs code filename =
     (if fs_writable fs filename then Inr (fs\<lparr>fs_files := (fs_files fs)(filename \<mapsto> code)\<rparr>)
      else Inl OSError)"

text \<open>
  One round of the loop of \<open>on_generate_script\<close> in the form: generate, then save
  under the path the form has chosen. An exception ends the round with the files
  as they are.
\<close>

definition generate_and_save ::
  "filesystem \<Rightarrow> json \<Rightarrow> endpoint \<Rightarrow> (string \<rightharpoonup> string) \<Rightarrow> string \<Rightarrow> string \<Rightarrow>
   filesystem \<times> (error + unit)" where
  "generate_and_save fs spec endpoint param_values language filepath =
     (case generate_script spec endpoint param_values language of
        Inl e \<Rightarrow> (fs, Inl e)
      | Inr code \<Rightarrow>
         (case save_script fs code filepath of
            Inl e \<Rightarrow> (fs, Inl e)
          | Inr fs' \<Rightarrow> (fs', Inr ())))"

section \<open>Loading the document\<close>

text \<open>
  What \<open>fetch_spec\<close> reads of the response: the status code, the \<open>Content-Type\<close>
  header when there is one, and the text.
\<close>

record response =
  resp_status_code :: int
  resp_content_type :: "string option"
  resp_text :: string


section \<open>The specification's vocabulary\<close>

text \<open>
  The definitions of this section are not translations of the program. They say, in
  the words of the specification, what the program is compared with.
\<close>

subsection \<open>Documents and their operations\<close>

fun is_dict :: "json \<Rightarrow> bool" where
  "is_dict (JObj kvs) = True"
| "is_dict _ = False"

fun entries :: "json \<Rightarrow> (string \<times> json) list" where
  "entries (JObj kvs) = kvs"
| "entries _ = []"

text \<open>The value under a key of a dictionary, or the default when the key is missing.\<close>

definition field_or :: "json \<Rightarrow> string \<Rightarrow> json \<Rightarrow> json" where
  "field_or x k d = (case map_of (entries x) k of Some v \<Rightarrow> v | None \<Rightarrow> d)"

definition is_http_method :: "string \<Rightarrow> bool" where
  "is_http_method k = (lower k \<in> set http_methods)"

text \<open>
  A document whose \<open>paths\<close>, when there, is a mapping from paths to mappings, in
  which every entry under one of the seven verbs is a mapping.
\<close>

definition well_formed_paths :: "json \<Rightarrow> bool" where
  "well_formed_paths doc =
     (is_dict doc \<and> is_dict (field_or doc ''paths'' (JObj [])) \<and>
      list_all (\<lambda>(p, ms). is_dict ms \<and>
          list_all (\<lambda>(k, operation). is_http_method k \<longrightarrow> is_dict operation) (entries ms))
        (entries (field_or doc ''paths'' (JObj []))))"

text \<open>The (path, method key, operation) triples of a document, in declaration order.\<close>

definition declared_operations :: "json \<Rightarrow> (string \<times> string \<times> json) list" where
  "declared_operations doc =
     concat (map (\<lambda>(p, ms). map (\<lambda>(k, operation). (p, k, operation))
                                (filter (\<lambda>(k, operation). is_http_method k) (entries ms)))
                 (entries (field_or doc ''paths'' (JObj []))))"

text \<open>The descriptor of one operation, with the defaults of missing fields.\<close>

definition descriptor :: "string \<times> string \<times> json \<Rightarrow> endpoint" where
  "descriptor t =
     (case t of (p, k, operation) \<Rightarrow>
        \<lparr>ep_method = upper k, ep_path = p,
         ep_summary = field_or operation ''summary'' (JStr []),
         ep_operationId = field_or operation ''operationId'' (JStr []),
         ep_parameters = field_or operation ''parameters'' (JArr [])\<rparr>)"

subsection \<open>Parameters\<close>

text \<open>A parameter object with a string under \<open>name\<close> and some value under \<open>in\<close>.\<close>

definition well_formed_param :: "json \<Rightarrow> bool" where
  "well_formed_param p =
     ((case getitem p ''name'' of Inr (JStr n) \<Rightarrow> True | _ \<Rightarrow> False) \<and>
      (case getitem p ''in'' of Inr l \<Rightarrow> True | _ \<Rightarrow> False))"

definition param_name :: "json \<Rightarrow> string" where
  "param_name p = (case getitem p ''name'' of Inr (JStr n) \<Rightarrow> n | _ \<Rightarrow> [])"

definition param_in :: "json \<Rightarrow> json" where
  "param_in p = (case getitem p ''in'' of Inr l \<Rightarrow> l | _ \<Rightarrow> JNull)"

text \<open>The value bound to a name: the caller's, or the empty string.\<close>

definition value_of :: "(string \<rightharpoonup> string) \<Rightarrow> string \<Rightarrow> string" where
  "value_of param_values n = (case param_values n of Some v \<Rightarrow> v | None \<Rightarrow> [])"

text \<open>The parameters placed at \<open>loc\<close>, in declaration order.\<close>

definition located :: "string \<Rightarrow> json list \<Rightarrow> json list" where
  "located loc params = filter (\<lambda>p. param_in p = JStr loc) params"

definition placements :: "string list" where
  "placements = [''path'', ''query'', ''header'', ''body'', ''formData'']"

text \<open>The map a dictionary of the program stands for.\<close>

definition bound_map :: "(string \<rightharpoonup> string) \<Rightarrow> string \<Rightarrow> json list \<Rightarrow> (string \<rightharpoonup> string)" where
  "bound_map param_values loc params =
     (\<lambda>n. if n \<in> set (map param_name (located loc params))
           then Some (value_of param_values n) else None)"

subsection \<open>The base URL as the specification words it\<close>

text \<open>
  ``\<open>servers[0].url\<close> when the \<open>servers\<close> key is present; otherwise
  \<open>schemes[0] + '://' + host + basePath\<close>''.
\<close>

definition synthesized_base_url :: "json \<Rightarrow> error + json" where
  "synthesized_base_url doc =
     (case getitem0 (field_or doc ''schemes'' (JArr [JStr ''https''])) of
        Inl e \<Rightarrow> Inl e
      | Inr scheme \<Rightarrow>
         (case (scheme, field_or doc ''host'' (JStr []), field_or doc ''basePath'' (JStr [])) of
            (JStr s, JStr h, JStr b) \<Rightarrow> Inr (JStr (s @ ''://'' @ h @ b))
          | _ \<Rightarrow> Inl Unmodelled))"

definition first_server_url :: "json \<Rightarrow> error + json" where
  "first_server_url servers =
     (case getitem0 servers of Inl e \<Rightarrow> Inl e | Inr server \<Rightarrow> getitem server ''url'')"

definition claimed_base_url :: "json \<Rightarrow> error + json" where
  "claimed_base_url doc =
     (case map_of (entries doc) ''servers'' of
        Some servers \<Rightarrow> first_server_url servers
      | None \<Rightarrow> synthesized_base_url doc)"

subsection \<open>The format policy\<close>

datatype format = Json | Yaml





subsection \<open>What the generated text contains\<close>

text \<open>The error the specification calls \<open>UnsupportedLanguageError\<close>.\<close>

definition unsupported_language :: "string \<Rightarrow> error" where
  "unsupported_language language = Exception (''Unsupported language: '' @ language)"

definition languages :: "string list" where
  "languages = [''Python'', ''C#'', ''JavaScript'', ''PHP'']"

text \<open>A text mentions headers when \<open>header\<close> occurs in it, in whatever case.\<close>

definition mentions_header :: "string \<Rightarrow> bool" where
  "mentions_header s = contains ''header'' (lower s)"

definition header_free_items :: "(string \<times> string) list \<Rightarrow> bool" where
  "header_free_items d = list_all (\<lambda>(k, v). \<not> mentions_header k \<and> \<not> mentions_header v) d"

text \<open>The last lines of each renderer's text.\<close>

definition python_tail :: string where
  \<open>python_tail =
     ''print('Status Code:', response.status_code)'' @ NL @
     ''print('Response Body:', response.text)'' @ NL\<close>

definition csharp_tail :: string where
  \<open>csharp_tail =
     ''        Console.WriteLine($"Status Code: {response.StatusCode}");'' @ NL @
     ''        Console.WriteLine($"Response Body: {responseString}");'' @ NL @
     ''    }'' @ NL @ ''}'' @ NL\<close>

definition javascript_tail :: string where
  \<open>javascript_tail =
     ''};'' @ NL @
     ''fetch(url, options)'' @ NL @
     ''    .then(response => response.text())'' @ NL @
     ''    .then(text => {'' @ NL @
     ''        console.log('Response Body:', text);'' @ NL @
     ''    })'' @ NL @
     ''    .catch(err => console.error('Error:', err));'' @ NL\<close>

definition php_tail :: string where
  \<open>php_tail =
     ''$response = curl_exec($ch);'' @ NL @
     ''curl_close($ch);'' @ NL @
     ''echo 'Response Body: ' . $response;'' @ NL @
     ''?>'' @ NL\<close>

subsection \<open>Further vocabulary\<close>


text \<open>The keys a document has under a path.\<close>

definition method_keys :: "json \<Rightarrow> string \<Rightarrow> string list" where
  "method_keys doc p =
     map fst (entries (field_or (field_or doc ''paths'' (JObj [])) p (JObj [])))"

text \<open>One round of the parameter loop, for a well-formed parameter.\<close>

definition bind_one :: "(string \<rightharpoonup> string) \<Rightarrow> buckets \<Rightarrow> json \<Rightarrow> buckets" where
  "bind_one pv b p = put_param (param_name p) (value_of pv (param_name p)) (param_in p) b"

section \<open>Basic facts\<close>

lemmas text_defs = lower_def upper_def capitalize_def lower_char_def upper_char_def
  upper_letters_def lower_letters_def

lemma lower_upper_char: "lower_char (upper_char c) = lower_char c"
  by (simp add: text_defs)

lemma lower_upper: "lower (upper s) = lower s"
  by (simp add: lower_def upper_def lower_upper_char)

lemma dict_get_field_or: "is_dict x \<Longrightarrow> dict_get x k d = Inr (field_or x k d)"
  by (cases x) (simp_all add: field_or_def)

lemma items_entries: "is_dict x \<Longrightarrow> items x = Inr (entries x)"
  by (cases x) simp_all

section \<open>Endpoint extraction yields the declared operations\<close>

lemma methods_loop_spec:
  "list_all (\<lambda>(k, operation). is_http_method k \<longrightarrow> is_dict operation) ms \<Longrightarrow>
   methods_loop p ms acc =
     Inr (acc @ map descriptor (map (\<lambda>(k, operation). (p, k, operation))
                                  (filter (\<lambda>(k, operation). is_http_method k) ms)))"
proof (induction ms arbitrary: acc)
  case Nil
  then show ?case by simp
next
  case (Cons a ms)
  obtain k operation where a: "a = (k, operation)" by (cases a)
  show ?case
  proof (cases "is_http_method k")
    case True
    with Cons.prems a have "is_dict operation" by simp
    with True Cons a show ?thesis
      by (simp add: dict_get_field_or is_http_method_def descriptor_def)
  next
    case False
    with Cons a show ?thesis by (simp add: is_http_method_def)
  qed
qed

lemma paths_loop_spec:
  "list_all (\<lambda>(p, ms). is_dict ms \<and>
       list_all (\<lambda>(k, operation). is_http_method k \<longrightarrow> is_dict operation) (entries ms)) ps \<Longrightarrow>
   paths_loop ps acc =
     Inr (acc @ map descriptor
        (concat (map (\<lambda>(p, ms). map (\<lambda>(k, operation). (p, k, operation))
                                (filter (\<lambda>(k, operation). is_http_method k) (entries ms))) ps)))"
proof (induction ps arbitrary: acc)
  case Nil
  then show ?case by simp
next
  case (Cons a ps)
  obtain p ms where a: "a = (p, ms)" by (cases a)
  with Cons.prems have d: "is_dict ms"
    and m: "list_all (\<lambda>(k, operation). is_http_method k \<longrightarrow> is_dict operation) (entries ms)"
    by simp_all
  from Cons.prems have r: "list_all (\<lambda>(p, ms). is_dict ms \<and>
       list_all (\<lambda>(k, operation). is_http_method k \<longrightarrow> is_dict operation) (entries ms)) ps"
    by simp
  show ?case
    by (simp add: a items_entries [OF d] methods_loop_spec [OF m] Cons.IH [OF r])
qed

lemma list_endpoints_spec:
  assumes "well_formed_paths doc"
  shows "list_endpoints doc = Inr (map descriptor (declared_operations doc))"
proof -
  from assms have d: "is_dict doc" and pd: "is_dict (field_or doc ''paths'' (JObj []))"
    and ps: "list_all (\<lambda>(p, ms). is_dict ms \<and>
          list_all (\<lambda>(k, operation). is_http_method k \<longrightarrow> is_dict operation) (entries ms))
        (entries (field_or doc ''paths'' (JObj [])))"
    by (simp_all add: well_formed_paths_def)
  show ?thesis
    by (simp add: list_endpoints_def dict_get_field_or [OF d] items_entries [OF pd]
        paths_loop_spec [OF ps] declared_operations_def)
qed

text \<open>
  Claim C4. For a document whose \<open>paths\<close> is a mapping of mappings and whose entries
  under the seven verbs are mappings, \<open>list_endpoints\<close> returns, without error, the
  descriptors of the declared operations: one for every (path, key) pair whose key
  is one of the seven verbs in whatever case, none for another key, in the order of
  the document, with the key in upper case as method. A descriptor takes \<open>''\<close>,
  \<open>''\<close> and \<open>[]\<close> for a missing \<open>summary\<close>, \<open>operationId\<close> and \<open>parameters\<close>.
\<close>

theorem list_endpoints_descriptors:
  "well_formed_paths doc \<Longrightarrow>
     list_endpoints doc = Inr (map descriptor (declared_operations doc)) \<and>
     length (declared_operations doc) =
       sum_list (map (\<lambda>(p, ms). length (filter (\<lambda>(k, operation). is_http_method k) (entries ms)))
                  (entries (field_or doc ''paths'' (JObj [])))) \<and>
     (map_of kvs ''summary'' = None \<longrightarrow> ep_summary (descriptor (p, k, JObj kvs)) = JStr []) \<and>
     (map_of kvs ''operationId'' = None \<longrightarrow> ep_operationId (descriptor (p, k, JObj kvs)) = JStr []) \<and>
     (map_of kvs ''parameters'' = None \<longrightarrow> ep_parameters (descriptor (p, k, JObj kvs)) = JArr []) \<and>
     ep_method (descriptor (p, k, JObj kvs)) = upper k \<and>
     ep_path (descriptor (p, k, JObj kvs)) = p"
  by (simp add: list_endpoints_spec descriptor_def field_or_def declared_operations_def
      length_concat comp_def split_def)

theorem list_endpoints_descriptors_witness:
  "well_formed_paths
     (JObj [(''paths'', JObj [(''/users/{id}'',
        JObj [(''get'', JObj [(''summary'', JStr ''One user'')]),
              (''parameters'', JArr []),
              (''POST'', JObj [])])])]) \<and>
   list_endpoints
     (JObj [(''paths'', JObj [(''/users/{id}'',
        JObj [(''get'', JObj [(''summary'', JStr ''One user'')]),
              (''parameters'', JArr []),
              (''POST'', JObj [])])])]) =
     Inr [\<lparr>ep_method = ''GET'', ep_path = ''/users/{id}'', ep_summary = JStr ''One user'',
           ep_operationId = JStr [], ep_parameters = JArr []\<rparr>,
          \<lparr>ep_method = ''POST'', ep_path = ''/users/{id}'', ep_summary = JStr [],
           ep_operationId = JStr [], ep_parameters = JArr []\<rparr>]"
proof -
  let ?doc = "JObj [(''paths'', JObj [(''/users/{id}'',
        JObj [(''get'', JObj [(''summary'', JStr ''One user'')]),
              (''parameters'', JArr []),
              (''POST'', JObj [])])])]"
  have wf: "well_formed_paths ?doc"
    by (simp add: well_formed_paths_def field_or_def is_http_method_def http_methods_def
        text_defs)
  have ops: "map descriptor (declared_operations ?doc) =
     [\<lparr>ep_method = ''GET'', ep_path = ''/users/{id}'', ep_summary = JStr ''One user'',
           ep_operationId = JStr [], ep_parameters = JArr []\<rparr>,
          \<lparr>ep_method = ''POST'', ep_path = ''/users/{id}'', ep_summary = JStr [],
           ep_operationId = JStr [], ep_parameters = JArr []\<rparr>]"
    by (simp add: declared_operations_def descriptor_def field_or_def is_http_method_def
        http_methods_def text_defs)
  from list_endpoints_descriptors [OF wf] have "list_endpoints ?doc =
      Inr (map descriptor (declared_operations ?doc))"
    by blast
  with wf ops show ?thesis by simp
qed

text \<open>The hypothesis is needed: \<open>list_endpoints\<close> returns for no other document.\<close>

lemma dict_get_ok: "dict_get x k d = Inr v \<Longrightarrow> is_dict x"
  by (cases x) simp_all

lemma items_ok: "items x = Inr kvs \<Longrightarrow> is_dict x \<and> entries x = kvs"
  by (cases x) simp_all

lemma methods_loop_ok:
  "methods_loop p ms acc = Inr es \<Longrightarrow>
   list_all (\<lambda>(k, operation). is_http_method k \<longrightarrow> is_dict operation) ms"
proof (induction ms arbitrary: acc)
  case Nil
  then show ?case by simp
next
  case (Cons a ms)
  obtain k operation where a: "a = (k, operation)" by (cases a)
  show ?case
  proof (cases "is_http_method k")
    case True
    with Cons.prems a show ?thesis
      by (auto simp: is_http_method_def split: sum.splits dest: dict_get_ok Cons.IH)
  next
    case False
    with Cons.prems a show ?thesis
      by (auto simp: is_http_method_def dest: Cons.IH)
  qed
qed

lemma paths_loop_ok:
  "paths_loop ps acc = Inr es \<Longrightarrow>
   list_all (\<lambda>(p, ms). is_dict ms \<and>
       list_all (\<lambda>(k, operation). is_http_method k \<longrightarrow> is_dict operation) (entries ms)) ps"
proof (induction ps arbitrary: acc)
  case Nil
  then show ?case by simp
next
  case (Cons a ps)
  obtain p ms where a: "a = (p, ms)" by (cases a)
  with Cons.prems show ?case
    by (auto split: sum.splits dest!: items_ok methods_loop_ok Cons.IH)
qed

lemma list_endpoints_ok:
  assumes "list_endpoints doc = Inr es"
  shows "well_formed_paths doc"
proof -
  from assms obtain paths where g: "dict_get doc ''paths'' (JObj []) = Inr paths"
    by (auto simp: list_endpoints_def split: sum.splits)
  then have d: "is_dict doc" by (rule dict_get_ok)
  with g have p: "paths = field_or doc ''paths'' (JObj [])"
    by (simp add: dict_get_field_or)
  from assms g obtain ps where i: "items paths = Inr ps" and l: "paths_loop ps [] = Inr es"
    by (auto simp: list_endpoints_def split: sum.splits)
  from i have "is_dict paths" "entries paths = ps" by (auto dest: items_ok)
  with d p paths_loop_ok [OF l] show ?thesis
    by (simp add: well_formed_paths_def)
qed


lemma list_endpoints_returns_iff:
  "(\<exists>es. list_endpoints doc = Inr es) \<longleftrightarrow> well_formed_paths doc"
  using list_endpoints_ok list_endpoints_spec by blast

section \<open>The base URL\<close>

lemma format_chain:
  "(case format_value scheme of Inl e \<Rightarrow> Inl e | Inr s \<Rightarrow>
      (case format_value host of Inl e \<Rightarrow> Inl e | Inr h \<Rightarrow>
         (case format_value bp of Inl e \<Rightarrow> Inl e | Inr b \<Rightarrow> Inr (JStr (s @ ''://'' @ h @ b)))))
   = (case (scheme, host, bp) of
        (JStr s, JStr h, JStr b) \<Rightarrow> Inr (JStr (s @ ''://'' @ h @ b))
      | _ \<Rightarrow> Inl Unmodelled)"
  by (cases scheme; cases host; cases bp; simp)

text \<open>
  Claim C6, as stated, read at a document that has the \<open>servers\<close> key with an empty
  list: the program does not take \<open>servers[0].url\<close> (there is none) but builds the
  URL from \<open>host\<close>.
\<close>

theorem base_url_empty_servers_counterexample:
  "resolve_base_url (JObj [(''servers'', JArr []), (''host'', JStr ''api.example.com'')]) =
     Inr (JStr ''https://api.example.com'') \<and>
   claimed_base_url (JObj [(''servers'', JArr []), (''host'', JStr ''api.example.com'')]) =
     Inl IndexError"
  by (simp add: resolve_base_url_def claimed_base_url_def first_server_url_def)

text \<open>
  Claim C6, amended. The base URL is \<open>servers[0].url\<close> when the document has a
  \<open>servers\<close> entry that is true as a condition (a non-empty list); when the entry is
  missing or empty it is \<open>schemes[0] + '://' + host + basePath\<close>, with \<open>''\<close> for a
  missing \<open>host\<close> or \<open>basePath\<close> and \<open>['https']\<close> for missing \<open>schemes\<close>, and with
  no check of \<open>host\<close>.
\<close>

theorem base_url_resolution:
  "is_dict doc \<Longrightarrow>
     (truthy (field_or doc ''servers'' (JArr [])) \<longrightarrow>
        resolve_base_url doc = first_server_url (field_or doc ''servers'' (JArr []))) \<and>
     (\<not> truthy (field_or doc ''servers'' (JArr [])) \<longrightarrow>
        resolve_base_url doc = synthesized_base_url doc) \<and>
     (\<not> truthy (field_or doc ''servers'' (JArr [])) \<and>
      field_or doc ''schemes'' (JArr [JStr ''https'']) = JArr (JStr s # others) \<and>
      field_or doc ''host'' (JStr []) = JStr h \<and>
      field_or doc ''basePath'' (JStr []) = JStr b \<longrightarrow>
        resolve_base_url doc = Inr (JStr (s @ ''://'' @ h @ b)))"
proof -
  assume d: "is_dict doc"
  have eq: "resolve_base_url doc =
       (if truthy (field_or doc ''servers'' (JArr []))
        then first_server_url (field_or doc ''servers'' (JArr []))
        else synthesized_base_url doc)"
    unfolding resolve_base_url_def format_chain first_server_url_def synthesized_base_url_def
    by (simp add: dict_get_field_or [OF d])
  show ?thesis
    by (simp add: eq synthesized_base_url_def)
qed

theorem base_url_resolution_witness:
  "is_dict (JObj [(''host'', JStr ''api.example.com''), (''basePath'', JStr ''/v1''),
                  (''schemes'', JArr [JStr ''https''])]) \<and>
   \<not> truthy (field_or (JObj [(''host'', JStr ''api.example.com''), (''basePath'', JStr ''/v1''),
                  (''schemes'', JArr [JStr ''https''])]) ''servers'' (JArr [])) \<and>
   resolve_base_url (JObj [(''host'', JStr ''api.example.com''), (''basePath'', JStr ''/v1''),
                           (''schemes'', JArr [JStr ''https''])]) =
     Inr (JStr ''https://api.example.com/v1'') \<and>
   is_dict (JObj [(''servers'', JArr [JObj [(''url'', JStr ''https://api.example.com/v3'')]]),
                  (''host'', JStr ''other.example.com'')]) \<and>
   truthy (field_or (JObj [(''servers'', JArr [JObj [(''url'', JStr ''https://api.example.com/v3'')]]),
                           (''host'', JStr ''other.example.com'')]) ''servers'' (JArr [])) \<and>
   resolve_base_url (JObj [(''servers'', JArr [JObj [(''url'', JStr ''https://api.example.com/v3'')]]),
                           (''host'', JStr ''other.example.com'')]) =
     Inr (JStr ''https://api.example.com/v3'')"
proof -
  let ?swagger = "JObj [(''host'', JStr ''api.example.com''), (''basePath'', JStr ''/v1''),
                  (''schemes'', JArr [JStr ''https''])]"
  let ?openapi = "JObj [(''servers'', JArr [JObj [(''url'', JStr ''https://api.example.com/v3'')]]),
                  (''host'', JStr ''other.example.com'')]"
  have d: "is_dict ?swagger" "is_dict ?openapi" by simp_all
  have f: "\<not> truthy (field_or ?swagger ''servers'' (JArr []))"
    "field_or ?swagger ''schemes'' (JArr [JStr ''https'']) = JArr (JStr ''https'' # [])"
    "field_or ?swagger ''host'' (JStr []) = JStr ''api.example.com''"
    "field_or ?swagger ''basePath'' (JStr []) = JStr ''/v1''"
    by (simp_all add: field_or_def)
  have t: "truthy (field_or ?openapi ''servers'' (JArr []))"
    "first_server_url (field_or ?openapi ''servers'' (JArr [])) =
       Inr (JStr ''https://api.example.com/v3'')"
    by (simp_all add: field_or_def first_server_url_def)
  from base_url_resolution [OF d(1), of "''https''" "[]" "''api.example.com''" "''/v1''"] f
  have "resolve_base_url ?swagger =
      Inr (JStr (''https'' @ ''://'' @ ''api.example.com'' @ ''/v1''))"
    by blast
  then have 1: "resolve_base_url ?swagger = Inr (JStr ''https://api.example.com/v1'')"
    by simp
  from base_url_resolution [OF d(2)] t
  have 2: "resolve_base_url ?openapi = Inr (JStr ''https://api.example.com/v3'')"
    by metis
  from d f(1) t(1) 1 2 show ?thesis by blast
qed

section \<open>The language dispatch\<close>

lemma dict_get_no_exception [simp]: "dict_get x k d \<noteq> Inl (Exception m)"
  by (cases x) simp_all

lemma getitem_no_exception [simp]: "getitem x k \<noteq> Inl (Exception m)"
  by (cases x) (simp_all split: option.splits)

lemma getitem0_no_exception [simp]: "getitem0 x \<noteq> Inl (Exception m)"
  by (cases x rule: getitem0.cases) simp_all

lemma format_value_no_exception [simp]: "format_value x \<noteq> Inl (Exception m)"
  by (cases x) simp_all

lemma iterate_no_exception [simp]: "iterate x \<noteq> Inl (Exception m)"
  by (cases x) simp_all

lemma str_add_no_exception [simp]: "str_add x p \<noteq> Inl (Exception m)"
  by (cases x) simp_all

lemma resolve_base_url_no_exception [simp]: "resolve_base_url spec \<noteq> Inl (Exception m)"
  by (auto simp: resolve_base_url_def split: sum.splits)

lemma lookup_operation_no_exception [simp]: "lookup_operation spec p k \<noteq> Inl (Exception m)"
  by (auto simp: lookup_operation_def split: sum.splits)

lemma bucket_params_no_exception [simp]: "bucket_params pv ps b \<noteq> Inl (Exception m)"
  by (induction ps arbitrary: b) (auto split: sum.splits json.splits)

lemma bind_request_no_exception [simp]: "bind_request spec e pv \<noteq> Inl (Exception m)"
  by (auto simp: bind_request_def Let_def split: sum.splits)

lemma render_cases:
  "render lang url m b = Inl err \<longleftrightarrow> lang \<notin> set languages \<and> err = unsupported_language lang"
  by (auto simp: render_def languages_def unsupported_language_def)

text \<open>
  Claim C8, as stated, read at a document that spells the method key \<open>GET\<close>, with
  the descriptor \<open>list_endpoints\<close> returns for it: the operation lookup raises
  \<open>KeyError\<close> before the language is looked at, so \<open>Python\<close> yields no source text
  and \<open>Rust\<close> does not fail with the unsupported-language error.
\<close>

theorem unsupported_language_counterexample:
  "list_endpoints (JObj [(''host'', JStr ''h''), (''paths'', JObj [(''/a'', JObj [(''GET'', JObj [])])])]) =
     Inr [\<lparr>ep_method = ''GET'', ep_path = ''/a'', ep_summary = JStr [],
           ep_operationId = JStr [], ep_parameters = JArr []\<rparr>] \<and>
   ''Python'' \<in> set languages \<and>
   generate_script (JObj [(''host'', JStr ''h''), (''paths'', JObj [(''/a'', JObj [(''GET'', JObj [])])])])
     \<lparr>ep_method = ''GET'', ep_path = ''/a'', ep_summary = JStr [],
      ep_operationId = JStr [], ep_parameters = JArr []\<rparr> Map.empty ''Python'' = Inl KeyError \<and>
   ''Rust'' \<notin> set languages \<and>
   generate_script (JObj [(''host'', JStr ''h''), (''paths'', JObj [(''/a'', JObj [(''GET'', JObj [])])])])
     \<lparr>ep_method = ''GET'', ep_path = ''/a'', ep_summary = JStr [],
      ep_operationId = JStr [], ep_parameters = JArr []\<rparr> Map.empty ''Rust'' = Inl KeyError \<and>
   Inl KeyError \<noteq> (Inl (unsupported_language ''Rust'') :: error + string)"
  by (simp add: list_endpoints_def generate_script_def bind_request_def resolve_base_url_def
      lookup_operation_def languages_def unsupported_language_def http_methods_def text_defs)

text \<open>
  Claim C8, amended. \<open>generate_script\<close> fails with the unsupported-language error
  if and only if the language is none of \<open>Python\<close>, \<open>C#\<close>, \<open>JavaScript\<close>, \<open>PHP\<close>
  and the binding of the request (base URL, operation lookup, parameter loop) has
  succeeded; for each of the four names it returns source text if and only if the
  binding has succeeded; and a failing call leaves the files as they are.
\<close>

theorem unsupported_language_after_binding:
  "(generate_script spec e pv lang = Inl (unsupported_language lang) \<longleftrightarrow>
      lang \<notin> set languages \<and> (\<exists>r. bind_request spec e pv = Inr r)) \<and>
   (lang \<in> set languages \<longrightarrow>
      ((\<exists>code. generate_script spec e pv lang = Inr code) \<longleftrightarrow>
       (\<exists>r. bind_request spec e pv = Inr r))) \<and>
   (generate_script spec e pv lang = Inl err \<longrightarrow>
      generate_and_save fs spec e pv lang filepath = (fs, Inl err))"
proof (intro conjI impI)
  show "generate_script spec e pv lang = Inl (unsupported_language lang) \<longleftrightarrow>
      lang \<notin> set languages \<and> (\<exists>r. bind_request spec e pv = Inr r)"
  proof (cases "bind_request spec e pv")
    case (Inl a)
    then show ?thesis
      using bind_request_no_exception [of spec e pv]
      by (auto simp: generate_script_def unsupported_language_def)
  next
    case (Inr r)
    then show ?thesis
      by (cases r) (auto simp: generate_script_def render_cases)
  qed
next
  assume "lang \<in> set languages"
  then show "(\<exists>code. generate_script spec e pv lang = Inr code) \<longleftrightarrow>
       (\<exists>r. bind_request spec e pv = Inr r)"
    by (cases "bind_request spec e pv")
      (auto simp: generate_script_def render_def languages_def)
next
  assume "generate_script spec e pv lang = Inl err"
  then show "generate_and_save fs spec e pv lang filepath = (fs, Inl err)"
    by (simp add: generate_and_save_def)
qed

theorem unsupported_language_after_binding_witness:
  "''Rust'' \<notin> set languages \<and>
   generate_script (JObj [(''host'', JStr ''h''), (''paths'', JObj [(''/a'', JObj [(''get'', JObj [])])])])
     \<lparr>ep_method = ''GET'', ep_path = ''/a'', ep_summary = JStr [],
      ep_operationId = JStr [], ep_parameters = JArr []\<rparr> Map.empty ''Rust'' =
     Inl (unsupported_language ''Rust'') \<and>
   generate_and_save \<lparr>fs_files = Map.empty, fs_writable = (\<lambda>p. True)\<rparr>
     (JObj [(''host'', JStr ''h''), (''paths'', JObj [(''/a'', JObj [(''get'', JObj [])])])])
     \<lparr>ep_method = ''GET'', ep_path = ''/a'', ep_summary = JStr [],
      ep_operationId = JStr [], ep_parameters = JArr []\<rparr> Map.empty ''Rust'' ''generated_script.txt'' =
     (\<lparr>fs_files = Map.empty, fs_writable = (\<lambda>p. True)\<rparr>, Inl (unsupported_language ''Rust'')) \<and>
   ''PHP'' \<in> set languages \<and>
   (\<exists>code. generate_script
      (JObj [(''host'', JStr ''h''), (''paths'', JObj [(''/a'', JObj [(''get'', JObj [])])])])
      \<lparr>ep_method = ''GET'', ep_path = ''/a'', ep_summary = JStr [],
       ep_operationId = JStr [], ep_parameters = JArr []\<rparr> Map.empty ''PHP'' = Inr code)"
proof -
  let ?doc = "JObj [(''host'', JStr ''h''), (''paths'', JObj [(''/a'', JObj [(''get'', JObj [])])])]"
  let ?e = "\<lparr>ep_method = ''GET'', ep_path = ''/a'', ep_summary = JStr [],
      ep_operationId = JStr [], ep_parameters = JArr []\<rparr>"
  let ?fs = "\<lparr>fs_files = Map.empty, fs_writable = (\<lambda>p. True)\<rparr>"
  have b: "bind_request ?doc ?e Map.empty = Inr (''https://h/a'', ''get'', no_buckets)"
    by (simp add: bind_request_def resolve_base_url_def lookup_operation_def no_buckets_def
        text_defs)
  have r: "''Rust'' \<notin> set languages" and p: "''PHP'' \<in> set languages"
    by (simp_all add: languages_def)
  note rust = unsupported_language_after_binding
    [of ?doc ?e Map.empty "''Rust''" "unsupported_language ''Rust''" ?fs "''generated_script.txt''"]
  note php = unsupported_language_after_binding
    [of ?doc ?e Map.empty "''PHP''" "unsupported_language ''PHP''" ?fs "''generated_script.txt''"]
  from rust b r have g: "generate_script ?doc ?e Map.empty ''Rust'' = Inl (unsupported_language ''Rust'')"
    by blast
  with rust have s: "generate_and_save ?fs ?doc ?e Map.empty ''Rust'' ''generated_script.txt'' =
      (?fs, Inl (unsupported_language ''Rust''))"
    by blast
  from php b p have "\<exists>code. generate_script ?doc ?e Map.empty ''PHP'' = Inr code"
    by blast
  with r p g s show ?thesis by blast
qed

section \<open>The format policy of the loader\<close>





section \<open>The operation is read again from the document\<close>

lemma generate_script_ignores_parameters:
  "generate_script spec (e\<lparr>ep_parameters := ps\<rparr>) pv lang = generate_script spec e pv lang"
  by (cases "resolve_base_url spec") (simp_all add: generate_script_def bind_request_def)

lemma generate_script_needs_operation:
  "generate_script spec e pv lang = Inr code \<Longrightarrow>
   \<exists>operation. lookup_operation spec (ep_path e) (lower (ep_method e)) = Inr operation"
  by (auto simp: generate_script_def bind_request_def Let_def split: sum.splits)

lemma map_of_present: "k \<in> fst ` set kvs \<Longrightarrow> \<exists>v. map_of kvs k = Some v"
  by (cases "map_of kvs k") (auto simp: map_of_eq_None_iff)

lemma getitem_field_or:
  "is_dict x \<Longrightarrow> k \<in> fst ` set (entries x) \<Longrightarrow> getitem x k = Inr (field_or x k d)"
  using map_of_present [of k "entries x"] by (cases x) (auto simp: field_or_def)

lemma getitem_missing:
  "is_dict x \<Longrightarrow> k \<notin> fst ` set (entries x) \<Longrightarrow> getitem x k = Inl KeyError"
  by (cases x) (auto simp: map_of_eq_None_iff split: option.splits)

lemma field_or_in_entries:
  "k \<in> fst ` set (entries x) \<Longrightarrow> (k, field_or x k d) \<in> set (entries x)"
  using map_of_present [of k "entries x"]
  by (cases x) (auto simp: field_or_def dest: map_of_SomeD)

lemma lookup_operation_missing:
  assumes wf: "well_formed_paths doc"
    and dec: "(p, k, operation) \<in> set (declared_operations doc)"
    and miss: "m \<notin> set (method_keys doc p)"
  shows "lookup_operation doc p m = Inl KeyError"
proof -
  let ?paths = "field_or doc ''paths'' (JObj [])"
  from wf have d: "is_dict doc" and pd: "is_dict ?paths"
    and all: "list_all (\<lambda>(p, ms). is_dict ms \<and>
          list_all (\<lambda>(k, operation). is_http_method k \<longrightarrow> is_dict operation) (entries ms))
        (entries ?paths)"
    by (simp_all add: well_formed_paths_def)
  from dec have pin: "p \<in> fst ` set (entries ?paths)"
    by (force simp: declared_operations_def)
  then have ne: "entries ?paths \<noteq> []" by auto
  have "''paths'' \<in> fst ` set (entries doc)"
  proof (rule ccontr)
    assume "''paths'' \<notin> fst ` set (entries doc)"
    then have "map_of (entries doc) ''paths'' = None" by (simp add: map_of_eq_None_iff)
    then have "?paths = JObj []" by (simp add: field_or_def)
    with ne show False by simp
  qed
  with d have g1: "getitem doc ''paths'' = Inr ?paths" by (rule getitem_field_or)
  let ?ms = "field_or ?paths p (JObj [])"
  from pd pin have g2: "getitem ?paths p = Inr ?ms" by (rule getitem_field_or)
  from pin have "(p, ?ms) \<in> set (entries ?paths)" by (rule field_or_in_entries)
  with all have md: "is_dict ?ms" by (auto simp: list_all_iff)
  from miss have "m \<notin> fst ` set (entries ?ms)" by (simp add: method_keys_def)
  with md have "getitem ?ms m = Inl KeyError" by (rule getitem_missing)
  with g1 g2 show ?thesis by (simp add: lookup_operation_def)
qed

text \<open>
  Claim C10. \<open>generate_script\<close> does not read the \<open>parameters\<close> of the descriptor:
  it looks the operation up in the document under the path and the method in lower
  case, and it returns source text only when that lookup succeeds. So when a
  well-formed document declares an operation under a key \<open>k\<close> (say \<open>GET\<close>) and has
  no key \<open>lower k\<close> under that path, \<open>list_endpoints\<close> returns the descriptor of
  the operation and \<open>generate_script\<close> on that descriptor raises: \<open>KeyError\<close> as
  soon as the base URL has been resolved.
\<close>

theorem generate_script_rereads_operation:
  "generate_script spec (e\<lparr>ep_parameters := ps\<rparr>) pv lang = generate_script spec e pv lang \<and>
   (generate_script spec e pv lang = Inr code \<longrightarrow>
      (\<exists>operation. lookup_operation spec (ep_path e) (lower (ep_method e)) = Inr operation)) \<and>
   (well_formed_paths doc \<and> (p, k, operation) \<in> set (declared_operations doc) \<and>
    lower k \<notin> set (method_keys doc p) \<longrightarrow>
      (\<exists>es. list_endpoints doc = Inr es \<and> descriptor (p, k, operation) \<in> set es) \<and>
      (\<exists>err. generate_script doc (descriptor (p, k, operation)) pv lang = Inl err) \<and>
      (\<forall>b. resolve_base_url doc = Inr b \<longrightarrow>
         generate_script doc (descriptor (p, k, operation)) pv lang = Inl KeyError))"
proof (intro conjI impI)
  show "generate_script spec (e\<lparr>ep_parameters := ps\<rparr>) pv lang = generate_script spec e pv lang"
    by (rule generate_script_ignores_parameters)
next
  assume "generate_script spec e pv lang = Inr code"
  then show "\<exists>operation. lookup_operation spec (ep_path e) (lower (ep_method e)) = Inr operation"
    by (rule generate_script_needs_operation)
next
  assume a: "well_formed_paths doc \<and> (p, k, operation) \<in> set (declared_operations doc) \<and>
    lower k \<notin> set (method_keys doc p)"
  then have l: "lookup_operation doc p (lower k) = Inl KeyError"
    using lookup_operation_missing by blast
  from a show "\<exists>es. list_endpoints doc = Inr es \<and> descriptor (p, k, operation) \<in> set es"
    by (simp add: list_endpoints_spec)
  show "\<exists>err. generate_script doc (descriptor (p, k, operation)) pv lang = Inl err"
    using l
    by (cases "resolve_base_url doc")
      (simp_all add: generate_script_def bind_request_def descriptor_def lower_upper)
  show "\<forall>b. resolve_base_url doc = Inr b \<longrightarrow>
         generate_script doc (descriptor (p, k, operation)) pv lang = Inl KeyError"
    using l
    by (simp add: generate_script_def bind_request_def descriptor_def lower_upper)
qed

theorem generate_script_rereads_operation_witness:
  "well_formed_paths (JObj [(''host'', JStr ''h''), (''paths'', JObj [(''/a'', JObj [(''GET'', JObj [])])])]) \<and>
   (''/a'', ''GET'', JObj []) \<in> set (declared_operations
      (JObj [(''host'', JStr ''h''), (''paths'', JObj [(''/a'', JObj [(''GET'', JObj [])])])])) \<and>
   lower ''GET'' \<notin> set (method_keys
      (JObj [(''host'', JStr ''h''), (''paths'', JObj [(''/a'', JObj [(''GET'', JObj [])])])]) ''/a'') \<and>
   resolve_base_url (JObj [(''host'', JStr ''h''), (''paths'', JObj [(''/a'', JObj [(''GET'', JObj [])])])]) =
     Inr (JStr ''https://h'') \<and>
   descriptor (''/a'', ''GET'', JObj []) =
     \<lparr>ep_method = ''GET'', ep_path = ''/a'', ep_summary = JStr [],
      ep_operationId = JStr [], ep_parameters = JArr []\<rparr> \<and>
   generate_script (JObj [(''host'', JStr ''h''), (''paths'', JObj [(''/a'', JObj [(''GET'', JObj [])])])])
     \<lparr>ep_method = ''GET'', ep_path = ''/a'', ep_summary = JStr [],
      ep_operationId = JStr [], ep_parameters = JArr []\<rparr> (Map.empty(''x'' \<mapsto> ''1'')) ''C#'' =
     Inl KeyError"
proof -
  let ?doc = "JObj [(''host'', JStr ''h''), (''paths'', JObj [(''/a'', JObj [(''GET'', JObj [])])])]"
  have wf: "well_formed_paths ?doc"
    by (simp add: well_formed_paths_def field_or_def is_http_method_def http_methods_def
        text_defs)
  have dec: "(''/a'', ''GET'', JObj []) \<in> set (declared_operations ?doc)"
    by (simp add: declared_operations_def field_or_def is_http_method_def http_methods_def
        text_defs)
  have miss: "lower ''GET'' \<notin> set (method_keys ?doc ''/a'')"
    by (simp add: method_keys_def field_or_def text_defs)
  have base: "resolve_base_url ?doc = Inr (JStr ''https://h'')"
    by (simp add: resolve_base_url_def)
  have d: "descriptor (''/a'', ''GET'', JObj []) =
     \<lparr>ep_method = ''GET'', ep_path = ''/a'', ep_summary = JStr [],
      ep_operationId = JStr [], ep_parameters = JArr []\<rparr>"
    by (simp add: descriptor_def field_or_def text_defs)
  from generate_script_rereads_operation
    [where doc = ?doc and p = "''/a''" and k = "''GET''" and operation = "JObj []"
      and pv = "Map.empty(''x'' \<mapsto> ''1'')" and lang = "''C#''"] wf dec miss base
  have "generate_script ?doc (descriptor (''/a'', ''GET'', JObj [])) (Map.empty(''x'' \<mapsto> ''1''))
      ''C#'' = Inl KeyError"
    by blast
  with wf dec miss base d show ?thesis by simp
qed

section \<open>The last lines of the generated text\<close>

lemma endswith_refl: "endswith x x"
  by (simp add: endswith_def)

lemma endswith_appendI: "endswith s x \<Longrightarrow> endswith (a @ s) x"
  by (simp add: endswith_def)

lemma endswith_suffix: "endswith s x \<longleftrightarrow> suffix x s"
  by (simp add: endswith_def suffix_to_prefix)

lemma python_ends: "endswith (generate_python_code url method q h b f) python_tail"
  unfolding generate_python_code_def python_tail_def
  by (rule endswith_refl | rule endswith_appendI)+

lemma csharp_ends: "endswith (generate_csharp_code url method q h b f) csharp_tail"
  unfolding generate_csharp_code_def csharp_tail_def
  by (rule endswith_refl | rule endswith_appendI)+

lemma javascript_ends: "endswith (generate_javascript_code url method q h b f) javascript_tail"
  unfolding generate_javascript_code_def javascript_tail_def
  by (rule endswith_refl | rule endswith_appendI)+

lemma php_ends: "endswith (generate_php_code url method q h b f) php_tail"
  unfolding generate_php_code_def php_tail_def
  by (rule endswith_refl | rule endswith_appendI)+

lemma tails_print:
  "contains ''response.status_code'' python_tail"
  "contains ''response.text'' python_tail"
  "contains ''response.StatusCode'' csharp_tail"
  "contains ''responseString'' csharp_tail"
  "contains ''console.log('Response Body:', text)'' javascript_tail"
  "contains ''echo 'Response Body: ' . $response;'' php_tail"
  "\<not> contains ''tatus'' javascript_tail"
  "\<not> contains ''tatus'' php_tail"
  by (simp_all add: python_tail_def csharp_tail_def javascript_tail_def php_tail_def)

text \<open>
  Claim C2, as stated, read at the request of the specification's own example
  (\<open>url = http://x/y\<close>, \<open>method = post\<close>, one query parameter, no header, no
  body, one form parameter): the JavaScript text and the PHP text mention no status
  anywhere, neither as \<open>status\<close> nor as \<open>Status\<close>.
\<close>

theorem status_not_printed_counterexample:
  "\<not> contains ''tatus''
      (generate_javascript_code ''http://x/y'' ''post'' [(''a'', ''1'')] [] None [(''f'', ''v'')]) \<and>
   \<not> contains ''tatus''
      (generate_php_code ''http://x/y'' ''post'' [(''a'', ''1'')] [] None [(''f'', ''v'')])"
  by (simp add: generate_javascript_code_def generate_php_code_def present_def
      query_string_def text_defs)

text \<open>
  Claim C2, amended. For every input, the Python text ends with the two \<open>print\<close>
  lines for the status code and the response body, and the C\# text ends with the
  two \<open>Console.WriteLine\<close> lines for them and the closing braces; the JavaScript
  text and the PHP text end with code that prints the response body only.
\<close>

theorem renderers_final_lines:
  "endswith (generate_python_code url method q h b f) python_tail \<and>
   contains ''response.status_code'' python_tail \<and> contains ''response.text'' python_tail \<and>
   endswith (generate_csharp_code url method q h b f) csharp_tail \<and>
   contains ''response.StatusCode'' csharp_tail \<and> contains ''responseString'' csharp_tail \<and>
   endswith (generate_javascript_code url method q h b f) javascript_tail \<and>
   contains ''console.log('Response Body:', text)'' javascript_tail \<and>
   \<not> contains ''tatus'' javascript_tail \<and>
   endswith (generate_php_code url method q h b f) php_tail \<and>
   contains ''echo 'Response Body: ' . $response;'' php_tail \<and>
   \<not> contains ''tatus'' php_tail"
  by (intro conjI python_ends csharp_ends javascript_ends php_ends tails_print)

section \<open>The parameter loop\<close>

lemma bucket_params_foldl:
  "list_all well_formed_param params \<Longrightarrow>
   bucket_params pv params b = Inr (foldl (bind_one pv) b params)"
proof (induction params arbitrary: b)
  case Nil
  then show ?case by simp
next
  case (Cons p ps)
  from Cons.prems obtain n l where n: "getitem p ''name'' = Inr (JStr n)"
    and l: "getitem p ''in'' = Inr l"
    by (auto simp: well_formed_param_def split: sum.splits json.splits)
  from Cons.prems have "list_all well_formed_param ps" by simp
  then show ?case
    by (simp add: n l Cons.IH bind_one_def param_name_def param_in_def value_of_def)
qed

lemma located_snoc:
  "located loc (ps @ [p]) = (if param_in p = JStr loc then located loc ps @ [p] else located loc ps)"
  by (simp add: located_def)

lemma bound_map_snoc:
  "bound_map pv loc (ps @ [p]) =
     (if param_in p = JStr loc then (bound_map pv loc ps)(param_name p \<mapsto> value_of pv (param_name p))
      else bound_map pv loc ps)"
  by (auto simp: bound_map_def located_snoc fun_eq_iff)

lemma placed_foldl:
  "b_path (foldl (bind_one pv) no_buckets params) =
     map (\<lambda>p. (param_name p, value_of pv (param_name p))) (located ''path'' params) \<and>
   map_of (b_query (foldl (bind_one pv) no_buckets params)) = bound_map pv ''query'' params \<and>
   distinct (map fst (b_query (foldl (bind_one pv) no_buckets params))) \<and>
   map_of (b_header (foldl (bind_one pv) no_buckets params)) = bound_map pv ''header'' params \<and>
   distinct (map fst (b_header (foldl (bind_one pv) no_buckets params))) \<and>
   map_of (b_form (foldl (bind_one pv) no_buckets params)) = bound_map pv ''formData'' params \<and>
   distinct (map fst (b_form (foldl (bind_one pv) no_buckets params))) \<and>
   b_body (foldl (bind_one pv) no_buckets params) =
     (if located ''body'' params = [] then None
      else Some (value_of pv (param_name (last (located ''body'' params)))))"
proof (induction params rule: rev_induct)
  case Nil
  then show ?case
    by (simp add: no_buckets_def located_def bound_map_def)
next
  case (snoc p ps)
  then show ?case
    by (simp add: bind_one_def put_param_def located_snoc bound_map_snoc
        update_conv' distinct_update)
qed

lemma bind_one_dropped:
  "param_in p \<notin> JStr ` set placements \<Longrightarrow> bind_one pv b p = b"
  by (auto simp: bind_one_def put_param_def placements_def)

lemma foldl_filter_placements:
  "foldl (bind_one pv) b (filter (\<lambda>p. param_in p \<in> JStr ` set placements) params) =
   foldl (bind_one pv) b params"
  by (induction params arbitrary: b) (simp_all add: bind_one_dropped)

text \<open>The loop ends without error for well-formed parameters only.\<close>

lemma bucket_params_ok:
  "bucket_params pv params b = Inr b' \<Longrightarrow> list_all well_formed_param params"
proof (induction params arbitrary: b)
  case Nil
  then show ?case by simp
next
  case (Cons p ps)
  from Cons.prems obtain n l where n: "getitem p ''name'' = Inr (JStr n)"
    and l: "getitem p ''in'' = Inr l"
    and r: "bucket_params pv ps (put_param n (case pv n of Some v \<Rightarrow> v | None \<Rightarrow> []) l b) = Inr b'"
    by (auto simp: Let_def split: sum.splits json.splits)
  from n l have "well_formed_param p" by (simp add: well_formed_param_def)
  with Cons.IH [OF r] show ?case by simp
qed

lemma bucket_params_returns_iff:
  "(\<exists>b'. bucket_params pv params b = Inr b') \<longleftrightarrow> list_all well_formed_param params"
  using bucket_params_ok bucket_params_foldl by blast

lemma bind_request_buckets:
  assumes "bind_request spec e pv = Inr (url, m, b)"
  shows "\<exists>operation ps.
     lookup_operation spec (ep_path e) (lower (ep_method e)) = Inr operation \<and>
     is_dict operation \<and>
     iterate (field_or operation ''parameters'' (JArr [])) = Inr ps \<and>
     list_all well_formed_param ps \<and>
     bucket_params pv ps no_buckets = Inr b"
proof -
  from assms obtain operation parameters ps
    where l: "lookup_operation spec (ep_path e) (lower (ep_method e)) = Inr operation"
      and g: "dict_get operation ''parameters'' (JArr []) = Inr parameters"
      and i: "iterate parameters = Inr ps"
      and r: "bucket_params pv ps no_buckets = Inr b"
    by (auto simp: bind_request_def Let_def split: sum.splits)
  from g have d: "is_dict operation" by (rule dict_get_ok)
  with g have "parameters = field_or operation ''parameters'' (JArr [])"
    by (simp add: dict_get_field_or)
  with l d i r bucket_params_ok [OF r] show ?thesis by blast
qed

lemma bind_request_returns:
  assumes "resolve_base_url spec = Inr (JStr base)"
    and "lookup_operation spec (ep_path e) (lower (ep_method e)) = Inr operation"
    and "is_dict operation"
    and "iterate (field_or operation ''parameters'' (JArr [])) = Inr ps"
    and "list_all well_formed_param ps"
  shows "bind_request spec e pv =
     Inr (substitute_path (b_path (foldl (bind_one pv) no_buckets ps)) (base @ ep_path e),
          lower (ep_method e), foldl (bind_one pv) no_buckets ps)"
  using assms
  by (simp add: bind_request_def dict_get_field_or bucket_params_foldl)

lemma generate_script_renders_buckets:
  assumes "bind_request spec e pv = Inr (url, m, b)"
  shows "generate_script spec e pv ''Python'' =
      Inr (generate_python_code url m (b_query b) (b_header b) (b_body b) (b_form b))"
    and "generate_script spec e pv ''C#'' =
      Inr (generate_csharp_code url m (b_query b) (b_header b) (b_body b) (b_form b))"
    and "generate_script spec e pv ''JavaScript'' =
      Inr (generate_javascript_code url m (b_query b) (b_header b) (b_body b) (b_form b))"
    and "generate_script spec e pv ''PHP'' =
      Inr (generate_php_code url m (b_query b) (b_header b) (b_body b) (b_form b))"
  using assms by (simp_all add: generate_script_def render_def)


text \<open>
  Claim C7. Whenever \<open>generate_script\<close> gets as far as its renderer, the five
  variables it hands over hold the parameters of the operation it has looked up in
  the document, each bound to the caller's value for its name or to \<open>''\<close>: the
  \<open>path\<close> parameters form the substitution list in declaration order, the
  \<open>query\<close>, \<open>header\<close> and \<open>formData\<close> parameters the three dictionaries, the
  last \<open>body\<close> parameter gives the body, and the parameters placed anywhere else
  change nothing. The loop ends without error when every parameter is an object
  with a string \<open>name\<close> and an \<open>in\<close> entry, and then, the base URL and the
  operation being there, so does the binding.
\<close>

theorem bucket_params_placement:
  "(list_all well_formed_param params \<longrightarrow>
     (\<exists>b. bucket_params pv params no_buckets = Inr b \<and>
        b_path b =
          map (\<lambda>p. (param_name p, value_of pv (param_name p))) (located ''path'' params) \<and>
        map_of (b_query b) = bound_map pv ''query'' params \<and> distinct (map fst (b_query b)) \<and>
        map_of (b_header b) = bound_map pv ''header'' params \<and> distinct (map fst (b_header b)) \<and>
        map_of (b_form b) = bound_map pv ''formData'' params \<and> distinct (map fst (b_form b)) \<and>
        b_body b =
          (if located ''body'' params = [] then None
           else Some (value_of pv (param_name (last (located ''body'' params))))) \<and>
        bucket_params pv (filter (\<lambda>p. param_in p \<in> JStr ` set placements) params) no_buckets =
          Inr b)) \<and>
   (bind_request spec e pv = Inr (url, m, b') \<longrightarrow>
     (\<exists>operation ps.
        lookup_operation spec (ep_path e) (lower (ep_method e)) = Inr operation \<and>
        is_dict operation \<and>
        iterate (field_or operation ''parameters'' (JArr [])) = Inr ps \<and>
        list_all well_formed_param ps \<and>
        bucket_params pv ps no_buckets = Inr b' \<and>
        b_path b' =
          map (\<lambda>p. (param_name p, value_of pv (param_name p))) (located ''path'' ps) \<and>
        map_of (b_query b') = bound_map pv ''query'' ps \<and>
        map_of (b_header b') = bound_map pv ''header'' ps \<and>
        map_of (b_form b') = bound_map pv ''formData'' ps \<and>
        b_body b' =
          (if located ''body'' ps = [] then None
           else Some (value_of pv (param_name (last (located ''body'' ps)))))) \<and>
     generate_script spec e pv ''Python'' =
       Inr (generate_python_code url m (b_query b') (b_header b') (b_body b') (b_form b')) \<and>
     generate_script spec e pv ''C#'' =
       Inr (generate_csharp_code url m (b_query b') (b_header b') (b_body b') (b_form b')) \<and>
     generate_script spec e pv ''JavaScript'' =
       Inr (generate_javascript_code url m (b_query b') (b_header b') (b_body b') (b_form b')) \<and>
     generate_script spec e pv ''PHP'' =
       Inr (generate_php_code url m (b_query b') (b_header b') (b_body b') (b_form b'))) \<and>
   (resolve_base_url spec = Inr (JStr base) \<and>
    lookup_operation spec (ep_path e) (lower (ep_method e)) = Inr operation \<and>
    is_dict operation \<and>
    iterate (field_or operation ''parameters'' (JArr [])) = Inr params \<and>
    list_all well_formed_param params \<longrightarrow>
     (\<exists>u b. bind_request spec e pv = Inr (u, lower (ep_method e), b) \<and>
            bucket_params pv params no_buckets = Inr b))"
proof (intro conjI impI)
  assume wf: "list_all well_formed_param params"
  then have "list_all well_formed_param
      (filter (\<lambda>p. param_in p \<in> JStr ` set placements) params)"
    by (simp add: list_all_iff)
  then have "bucket_params pv (filter (\<lambda>p. param_in p \<in> JStr ` set placements) params) no_buckets
      = Inr (foldl (bind_one pv) no_buckets params)"
    by (simp add: bucket_params_foldl foldl_filter_placements)
  with bucket_params_foldl [OF wf, of pv no_buckets] placed_foldl [of pv params]
  show "\<exists>b. bucket_params pv params no_buckets = Inr b \<and>
        b_path b =
          map (\<lambda>p. (param_name p, value_of pv (param_name p))) (located ''path'' params) \<and>
        map_of (b_query b) = bound_map pv ''query'' params \<and> distinct (map fst (b_query b)) \<and>
        map_of (b_header b) = bound_map pv ''header'' params \<and> distinct (map fst (b_header b)) \<and>
        map_of (b_form b) = bound_map pv ''formData'' params \<and> distinct (map fst (b_form b)) \<and>
        b_body b =
          (if located ''body'' params = [] then None
           else Some (value_of pv (param_name (last (located ''body'' params))))) \<and>
        bucket_params pv (filter (\<lambda>p. param_in p \<in> JStr ` set placements) params) no_buckets =
          Inr b"
    by simp
next
  assume a: "bind_request spec e pv = Inr (url, m, b')"
  from bind_request_buckets [OF a] obtain operation ps
    where l: "lookup_operation spec (ep_path e) (lower (ep_method e)) = Inr operation"
      and d: "is_dict operation"
      and i: "iterate (field_or operation ''parameters'' (JArr [])) = Inr ps"
      and wf: "list_all well_formed_param ps"
      and r: "bucket_params pv ps no_buckets = Inr b'"
    by blast
  from r bucket_params_foldl [OF wf, of pv no_buckets]
  have b: "b' = foldl (bind_one pv) no_buckets ps" by simp
  from l d i wf r placed_foldl [of pv ps]
  show "\<exists>operation ps.
        lookup_operation spec (ep_path e) (lower (ep_method e)) = Inr operation \<and>
        is_dict operation \<and>
        iterate (field_or operation ''parameters'' (JArr [])) = Inr ps \<and>
        list_all well_formed_param ps \<and>
        bucket_params pv ps no_buckets = Inr b' \<and>
        b_path b' =
          map (\<lambda>p. (param_name p, value_of pv (param_name p))) (located ''path'' ps) \<and>
        map_of (b_query b') = bound_map pv ''query'' ps \<and>
        map_of (b_header b') = bound_map pv ''header'' ps \<and>
        map_of (b_form b') = bound_map pv ''formData'' ps \<and>
        b_body b' =
          (if located ''body'' ps = [] then None
           else Some (value_of pv (param_name (last (located ''body'' ps)))))"
    unfolding b by blast
  from a show "generate_script spec e pv ''Python'' =
       Inr (generate_python_code url m (b_query b') (b_header b') (b_body b') (b_form b'))"
    by (rule generate_script_renders_buckets)
  from a show "generate_script spec e pv ''C#'' =
       Inr (generate_csharp_code url m (b_query b') (b_header b') (b_body b') (b_form b'))"
    by (rule generate_script_renders_buckets)
  from a show "generate_script spec e pv ''JavaScript'' =
       Inr (generate_javascript_code url m (b_query b') (b_header b') (b_body b') (b_form b'))"
    by (rule generate_script_renders_buckets)
  from a show "generate_script spec e pv ''PHP'' =
       Inr (generate_php_code url m (b_query b') (b_header b') (b_body b') (b_form b'))"
    by (rule generate_script_renders_buckets)
next
  assume "resolve_base_url spec = Inr (JStr base) \<and>
    lookup_operation spec (ep_path e) (lower (ep_method e)) = Inr operation \<and>
    is_dict operation \<and>
    iterate (field_or operation ''parameters'' (JArr [])) = Inr params \<and>
    list_all well_formed_param params"
  then show "\<exists>u b. bind_request spec e pv = Inr (u, lower (ep_method e), b) \<and>
            bucket_params pv params no_buckets = Inr b"
    using bind_request_returns [of spec base e operation params pv]
    by (simp add: bucket_params_foldl)
qed

theorem bucket_params_placement_witness:
  "list_all well_formed_param
     [JObj [(''name'', JStr ''id''), (''in'', JStr ''path'')],
      JObj [(''name'', JStr ''q''), (''in'', JStr ''query'')],
      JObj [(''name'', JStr ''b1''), (''in'', JStr ''body'')],
      JObj [(''name'', JStr ''b2''), (''in'', JStr ''body'')],
      JObj [(''name'', JStr ''c''), (''in'', JStr ''cookie'')]] \<and>
   bucket_params (Map.empty(''id'' \<mapsto> ''42'', ''b1'' \<mapsto> ''[1]'', ''b2'' \<mapsto> ''{}''))
     [JObj [(''name'', JStr ''id''), (''in'', JStr ''path'')],
      JObj [(''name'', JStr ''q''), (''in'', JStr ''query'')],
      JObj [(''name'', JStr ''b1''), (''in'', JStr ''body'')],
      JObj [(''name'', JStr ''b2''), (''in'', JStr ''body'')],
      JObj [(''name'', JStr ''c''), (''in'', JStr ''cookie'')]] no_buckets =
     Inr \<lparr>b_path = [(''id'', ''42'')], b_query = [(''q'', [])], b_header = [],
          b_body = Some ''{}'', b_form = []\<rparr> \<and>
   bucket_params (Map.empty(''id'' \<mapsto> ''42'', ''b1'' \<mapsto> ''[1]'', ''b2'' \<mapsto> ''{}''))
     (filter (\<lambda>p. param_in p \<in> JStr ` set placements)
       [JObj [(''name'', JStr ''id''), (''in'', JStr ''path'')],
        JObj [(''name'', JStr ''q''), (''in'', JStr ''query'')],
        JObj [(''name'', JStr ''b1''), (''in'', JStr ''body'')],
        JObj [(''name'', JStr ''b2''), (''in'', JStr ''body'')],
        JObj [(''name'', JStr ''c''), (''in'', JStr ''cookie'')]]) no_buckets =
     Inr \<lparr>b_path = [(''id'', ''42'')], b_query = [(''q'', [])], b_header = [],
          b_body = Some ''{}'', b_form = []\<rparr> \<and>
   bind_request
     (JObj [(''host'', JStr ''h''), (''paths'', JObj [(''/users/{id}'', JObj [(''get'',
        JObj [(''parameters'', JArr
          [JObj [(''name'', JStr ''id''), (''in'', JStr ''path'')],
           JObj [(''name'', JStr ''q''), (''in'', JStr ''query'')],
           JObj [(''name'', JStr ''b1''), (''in'', JStr ''body'')],
           JObj [(''name'', JStr ''b2''), (''in'', JStr ''body'')],
           JObj [(''name'', JStr ''c''), (''in'', JStr ''cookie'')]])])])])])
     \<lparr>ep_method = ''GET'', ep_path = ''/users/{id}'', ep_summary = JStr [],
      ep_operationId = JStr [], ep_parameters = JArr []\<rparr>
     (Map.empty(''id'' \<mapsto> ''42'', ''b1'' \<mapsto> ''[1]'', ''b2'' \<mapsto> ''{}'')) =
     Inr (''https://h/users/42'', ''get'',
          \<lparr>b_path = [(''id'', ''42'')], b_query = [(''q'', [])], b_header = [],
           b_body = Some ''{}'', b_form = []\<rparr>) \<and>
   generate_script
     (JObj [(''host'', JStr ''h''), (''paths'', JObj [(''/users/{id}'', JObj [(''get'',
        JObj [(''parameters'', JArr
          [JObj [(''name'', JStr ''id''), (''in'', JStr ''path'')],
           JObj [(''name'', JStr ''q''), (''in'', JStr ''query'')],
           JObj [(''name'', JStr ''b1''), (''in'', JStr ''body'')],
           JObj [(''name'', JStr ''b2''), (''in'', JStr ''body'')],
           JObj [(''name'', JStr ''c''), (''in'', JStr ''cookie'')]])])])])])
     \<lparr>ep_method = ''GET'', ep_path = ''/users/{id}'', ep_summary = JStr [],
      ep_operationId = JStr [], ep_parameters = JArr []\<rparr>
     (Map.empty(''id'' \<mapsto> ''42'', ''b1'' \<mapsto> ''[1]'', ''b2'' \<mapsto> ''{}'')) ''PHP'' =
     Inr (generate_php_code ''https://h/users/42'' ''get'' [(''q'', [])] [] (Some ''{}'') [])"
proof -
  let ?params = "[JObj [(''name'', JStr ''id''), (''in'', JStr ''path'')],
      JObj [(''name'', JStr ''q''), (''in'', JStr ''query'')],
      JObj [(''name'', JStr ''b1''), (''in'', JStr ''body'')],
      JObj [(''name'', JStr ''b2''), (''in'', JStr ''body'')],
      JObj [(''name'', JStr ''c''), (''in'', JStr ''cookie'')]]"
  let ?pv = "Map.empty(''id'' \<mapsto> ''42'', ''b1'' \<mapsto> ''[1]'', ''b2'' \<mapsto> ''{}'')"
  let ?doc = "JObj [(''host'', JStr ''h''), (''paths'', JObj [(''/users/{id}'', JObj [(''get'',
        JObj [(''parameters'', JArr ?params)])])])]"
  let ?e = "\<lparr>ep_method = ''GET'', ep_path = ''/users/{id}'', ep_summary = JStr [],
      ep_operationId = JStr [], ep_parameters = JArr []\<rparr>"
  let ?b = "\<lparr>b_path = [(''id'', ''42'')], b_query = [(''q'', [])], b_header = [],
          b_body = Some ''{}'', b_form = []\<rparr>"
  have wf: "list_all well_formed_param ?params"
    by (simp add: well_formed_param_def)
  have run: "bucket_params ?pv ?params no_buckets = Inr ?b"
    by (simp add: put_param_def no_buckets_def)
  have bound: "bind_request ?doc ?e ?pv = Inr (''https://h/users/42'', ''get'', ?b)"
    by (simp add: bind_request_def resolve_base_url_def lookup_operation_def put_param_def
        no_buckets_def replace.simps text_defs)
  note t = bucket_params_placement [where params = ?params and pv = ?pv and spec = ?doc
      and e = ?e and url = "''https://h/users/42''" and m = "''get''" and b' = ?b]
  from t wf obtain b
    where "bucket_params ?pv ?params no_buckets = Inr b"
      and "bucket_params ?pv (filter (\<lambda>p. param_in p \<in> JStr ` set placements) ?params)
             no_buckets = Inr b"
    by blast
  with run have filtered: "bucket_params ?pv
      (filter (\<lambda>p. param_in p \<in> JStr ` set placements) ?params) no_buckets = Inr ?b"
    by simp
  from t bound have "generate_script ?doc ?e ?pv ''PHP'' =
      Inr (generate_php_code ''https://h/users/42'' ''get'' (b_query ?b) (b_header ?b)
             (b_body ?b) (b_form ?b))"
    by blast
  then have php: "generate_script ?doc ?e ?pv ''PHP'' =
      Inr (generate_php_code ''https://h/users/42'' ''get'' [(''q'', [])] [] (Some ''{}'') [])"
    by simp
  from wf run filtered bound php show ?thesis by blast
qed

section \<open>Path substitution\<close>

lemma contains_Nil [simp]: "contains [] s"
  by (induction s) simp_all

lemma contains_sublist: "contains w s \<longleftrightarrow> sublist w s"
  by (induction s) (auto simp: sublist_Cons_right)

lemma replace_Nil [simp]: "old \<noteq> [] \<Longrightarrow> replace old new [] = []"
  by (simp add: replace.simps)

lemma replace_Cons_no_prefix:
  "old \<noteq> [] \<Longrightarrow> \<not> prefix old (c # cs) \<Longrightarrow> replace old new (c # cs) = c # replace old new cs"
  by (subst replace.simps) simp

lemma replace_prefix:
  "old \<noteq> [] \<Longrightarrow> replace old new (old @ t) = new @ replace old new t"
  by (subst replace.simps) simp

lemma replace_absent: "\<not> contains old s \<Longrightarrow> replace old new s = s"
proof (induction s)
  case Nil
  then show ?case by (cases old) simp_all
next
  case (Cons c cs)
  then have "old \<noteq> []" by auto
  with Cons show ?case by (simp add: replace_Cons_no_prefix)
qed

lemma prefix_butlast:
  assumes "prefix old (c # a @ old @ t)"
  shows "prefix old (c # a @ butlast old)"
proof (cases "old = []")
  case True
  then show ?thesis by simp
next
  case False
  then have o: "old = butlast old @ [last old]" by simp
  have "c # a @ old @ t = (c # a @ butlast old) @ (last old # t)"
    by (subst o) simp
  with assms have p: "prefix old ((c # a @ butlast old) @ (last old # t))" by simp
  have q: "prefix (c # a @ butlast old) ((c # a @ butlast old) @ (last old # t))"
    by (rule prefixI) simp
  have "length old \<le> length (c # a @ butlast old)" by simp
  with p q show ?thesis by (rule prefix_length_prefix)
qed

lemma replace_first:
  "old \<noteq> [] \<Longrightarrow> \<not> contains old (a @ butlast old) \<Longrightarrow>
   replace old new (a @ old @ t) = a @ new @ replace old new t"
proof (induction a)
  case Nil
  then show ?case by (simp add: replace_prefix)
next
  case (Cons c a)
  from Cons.prems have np: "\<not> prefix old (c # a @ butlast old)"
    and nc: "\<not> contains old (a @ butlast old)" by simp_all
  from np have "\<not> prefix old (c # a @ old @ t)"
    by (rule contrapos_nn) (rule prefix_butlast)
  with Cons.prems(1) have "replace old new ((c # a) @ old @ t) = c # replace old new (a @ old @ t)"
    by (simp add: replace_Cons_no_prefix)
  with Cons.IH [OF Cons.prems(1) nc] show ?case by simp
qed

lemma substitute_path_foldl:
  "substitute_path ps u = foldl (\<lambda>u (n, v). replace (''{'' @ n @ ''}'') v u) u ps"
  by (induction ps arbitrary: u) auto

lemma substitute_path_absent:
  "list_all (\<lambda>(n, v). \<not> contains (''{'' @ n @ ''}'') u) ps \<Longrightarrow> substitute_path ps u = u"
  by (induction ps) (auto simp: replace_absent)

lemma prefix_replace:
  assumes "old \<noteq> []" "new \<noteq> []" "set new \<inter> set old = {}"
  shows "set w \<subseteq> set old \<Longrightarrow> prefix w (replace old new s) \<Longrightarrow> prefix w s"
proof (induction s arbitrary: w)
  case Nil
  with assms show ?case by simp
next
  case (Cons c cs)
  show ?case
  proof (cases "prefix old (c # cs)")
    case True
    then obtain t where t: "c # cs = old @ t" by (auto simp: prefix_def)
    with assms have r: "replace old new (c # cs) = new @ replace old new t"
      by (simp add: replace_prefix)
    from assms obtain x xs where n: "new = x # xs" by (cases new) auto
    with assms have "x \<notin> set old" by auto
    with Cons.prems r n have "w = []" by (cases w) auto
    then show ?thesis by simp
  next
    case False
    with assms have r: "replace old new (c # cs) = c # replace old new cs"
      by (simp add: replace_Cons_no_prefix)
    show ?thesis
    proof (cases w)
      case Nil
      then show ?thesis by simp
    next
      case (Cons x xs)
      with Cons.prems r Cons.IH [of xs] show ?thesis by auto
    qed
  qed
qed

lemma contains_skip:
  "old \<noteq> [] \<Longrightarrow> set new \<inter> set old = {} \<Longrightarrow> contains old (new @ t) \<Longrightarrow> contains old t"
proof (induction new)
  case Nil
  then show ?case by simp
next
  case (Cons x xs)
  from Cons.prems have "x \<notin> set old" by auto
  with Cons.prems have "\<not> prefix old (x # xs @ t)" by (cases old) auto
  with Cons show ?case by auto
qed

lemma replace_leaves_none:
  assumes "old \<noteq> []" "new \<noteq> []" "set new \<inter> set old = {}"
  shows "\<not> contains old (replace old new s)"
proof (induction "length s" arbitrary: s rule: less_induct)
  case less
  show ?case
  proof (cases s)
    case Nil
    with assms show ?thesis by simp
  next
    case (Cons c cs)
    show ?thesis
    proof (cases "prefix old s")
      case True
      then obtain t where t: "s = old @ t" by (auto simp: prefix_def)
      with assms have r: "replace old new s = new @ replace old new t"
        by (simp add: replace_prefix)
      from t assms have "length t < length s" by simp
      then have "\<not> contains old (replace old new t)" by (rule less)
      with r assms show ?thesis using contains_skip by metis
    next
      case False
      with assms Cons have r: "replace old new s = c # replace old new cs"
        by (simp add: replace_Cons_no_prefix)
      from Cons have "\<not> contains old (replace old new cs)" by (intro less) simp
      moreover have "\<not> prefix old (replace old new s)"
        using prefix_replace [OF assms, of old s] False by auto
      ultimately show ?thesis by (simp add: r)
    qed
  qed
qed

lemma bind_request_url:
  "bind_request spec e pv = Inr (url, m, b) \<Longrightarrow>
   \<exists>base. resolve_base_url spec = Inr (JStr base) \<and>
          url = substitute_path (b_path b) (base @ ep_path e) \<and> m = lower (ep_method e)"
  by (auto simp: bind_request_def Let_def split: sum.splits elim: str_add.elims)

text \<open>
  Claim C5. The URL \<open>generate_script\<close> renders is the base URL followed by the
  path, with the placeholders replaced for the path parameters one after the other
  in declaration order. One replacement is Python's \<open>replace\<close>: from the left,
  each occurrence of \<open>{name}\<close> gives way to the value as it is, without escaping;
  a URL in which \<open>{name}\<close> does not occur is left as it is, so that there is never
  an error, a placeholder of no path parameter stays, and substituting again where
  no placeholder of a parameter is left changes nothing. A value that is not empty
  and shares no character with \<open>{name}\<close> leaves no \<open>{name}\<close> behind.
\<close>

theorem path_substitution:
  "(bind_request spec e pv = Inr (url, m, b) \<longrightarrow>
      (\<exists>base. resolve_base_url spec = Inr (JStr base) \<and>
              url = substitute_path (b_path b) (base @ ep_path e))) \<and>
   substitute_path ps u = foldl (\<lambda>u (n, v). replace (''{'' @ n @ ''}'') v u) u ps \<and>
   (old \<noteq> [] \<and> \<not> contains old (a @ butlast old) \<longrightarrow>
      replace old new (a @ old @ t) = a @ new @ replace old new t) \<and>
   (\<not> contains old s \<longrightarrow> replace old new s = s) \<and>
   (old \<noteq> [] \<and> new \<noteq> [] \<and> set new \<inter> set old = {} \<longrightarrow> \<not> contains old (replace old new s)) \<and>
   (list_all (\<lambda>(n, v). \<not> contains (''{'' @ n @ ''}'') u) ps \<longrightarrow> substitute_path ps u = u)"
  using bind_request_url [of spec e pv url m b] substitute_path_foldl [of ps u]
    replace_first [of old a new t] replace_absent [of old s new]
    replace_leaves_none [of old new s] substitute_path_absent [of u ps]
  by blast

theorem path_substitution_witness:
  "bind_request
     (JObj [(''host'', JStr ''api.example.com''), (''basePath'', JStr ''/v1''),
            (''paths'', JObj [(''/users/{id}/{tab}'', JObj [(''get'', JObj [(''parameters'',
               JArr [JObj [(''name'', JStr ''id''), (''in'', JStr ''path'')]])])])])])
     \<lparr>ep_method = ''GET'', ep_path = ''/users/{id}/{tab}'', ep_summary = JStr [],
      ep_operationId = JStr [], ep_parameters = JArr []\<rparr>
     (Map.empty(''id'' \<mapsto> ''42'')) =
     Inr (''https://api.example.com/v1/users/42/{tab}'', ''get'',
          \<lparr>b_path = [(''id'', ''42'')], b_query = [], b_header = [], b_body = None, b_form = []\<rparr>) \<and>
   replace ''{id}'' ''42'' ''https://api.example.com/v1/users/{id}/{tab}'' =
     ''https://api.example.com/v1/users/42/{tab}'' \<and>
   \<not> contains ''{id}'' ''https://api.example.com/v1/users/42/{tab}'' \<and>
   substitute_path [(''id'', ''42'')] ''https://api.example.com/v1/users/42/{tab}'' =
     ''https://api.example.com/v1/users/42/{tab}''"
proof -
  let ?doc = "JObj [(''host'', JStr ''api.example.com''), (''basePath'', JStr ''/v1''),
            (''paths'', JObj [(''/users/{id}/{tab}'', JObj [(''get'', JObj [(''parameters'',
               JArr [JObj [(''name'', JStr ''id''), (''in'', JStr ''path'')]])])])])]"
  let ?e = "\<lparr>ep_method = ''GET'', ep_path = ''/users/{id}/{tab}'', ep_summary = JStr [],
      ep_operationId = JStr [], ep_parameters = JArr []\<rparr>"
  let ?b = "\<lparr>b_path = [(''id'', ''42'')], b_query = [], b_header = [], b_body = None, b_form = []\<rparr>"
  let ?a = "''https://api.example.com/v1/users/''"
  let ?r = "''https://api.example.com/v1/users/42/{tab}''"
  have absent: "\<not> contains ''{id}'' ''/{tab}''" "\<not> contains ''{id}'' (?a @ butlast ''{id}'')"
    "\<not> contains ''{id}'' ?r"
    by simp_all
  note first = path_substitution [where old = "''{id}''" and a = ?a and new = "''42''"
      and t = "''/{tab}''" and s = "''/{tab}''"]
  from first absent have rep: "replace ''{id}'' ''42'' (?a @ ''{id}'' @ ''/{tab}'') = ?r"
    by simp
  note again = path_substitution [where ps = "[(''id'', ''42'')]" and u = ?r]
  from again absent have idem: "substitute_path [(''id'', ''42'')] ?r = ?r"
    by simp
  have base: "resolve_base_url ?doc = Inr (JStr ''https://api.example.com/v1'')"
    by (simp add: resolve_base_url_def)
  have "bind_request ?doc ?e (Map.empty(''id'' \<mapsto> ''42'')) = Inr (?r, ''get'', ?b)"
    using rep
    by (simp add: bind_request_def base lookup_operation_def put_param_def no_buckets_def
        text_defs)
  with rep idem absent show ?thesis by simp
qed

section \<open>Body and form parameters\<close>

lemma contains_prefixI: "prefix w s \<Longrightarrow> contains w s"
  by (cases s) auto

lemma contains_appendI: "contains w s \<Longrightarrow> contains w (a @ s)"
  by (induction a) auto

lemma contains_head: "contains x (x @ z)"
  by (rule contains_prefixI) simp

lemma csharp_body_only:
  assumes "present body_param"
  shows "generate_csharp_code url method q h body_param form_params =
         generate_csharp_code url method q h body_param []"
  using assms by (simp add: generate_csharp_code_def)

lemma csharp_body_sent:
  assumes "present body_param"
  shows "contains
      (''        var jsonBody = '' @ str_of body_param @ '';'' @ NL @
       ''        var content = new StringContent(JsonConvert.SerializeObject(jsonBody), System.Text.Encoding.UTF8, \"application/json\");'' @ NL)
      (generate_csharp_code url method q h body_param form_params)"
  unfolding generate_csharp_code_def
  apply (simp only: assms if_True)
  apply (rule contains_head | rule contains_appendI)+
  done

lemma javascript_body_only:
  assumes "present body_param"
  shows "generate_javascript_code url method q h body_param form_params =
         generate_javascript_code url method q h body_param []"
  using assms by (simp add: generate_javascript_code_def)

lemma javascript_body_sent:
  assumes "present body_param"
  shows "contains (''    body: JSON.stringify('' @ str_of body_param @ ''),'' @ NL)
      (generate_javascript_code url method q h body_param form_params)"
  unfolding generate_javascript_code_def
  apply (simp only: assms if_True)
  apply (rule contains_head | rule contains_appendI)+
  done

lemma php_body_only:
  assumes "present body_param"
  shows "generate_php_code url method q h body_param form_params =
         generate_php_code url method q h body_param []"
  using assms by (simp add: generate_php_code_def)

lemma php_body_sent:
  assumes "present body_param"
  shows "contains (''$data = json_encode('' @ str_of body_param @ '');'' @ NL @
        ''curl_setopt($ch, CURLOPT_POSTFIELDS, $data);'' @ NL)
      (generate_php_code url method q h body_param form_params)"
  unfolding generate_php_code_def
  apply (simp only: assms if_True)
  apply (rule contains_head | rule contains_appendI)+
  done

lemmas dumps_defs = json_dumps_def json_dumps_str_def json_escape_char_def hex_digit_def

text \<open>
  Claim C1, as stated, read at a request with the body \<open>[1]\<close> and the form
  parameter \<open>f = v\<close>: the Python text is not the text of the same request without
  the form parameter; it holds the form-encoded payload \<open>data = {"f": "v"}\<close> and
  passes \<open>data=data\<close> to the call, next to \<open>json=json_body\<close>.
\<close>

theorem python_body_and_form_counterexample:
  \<open>present (Some ''[1]'') \<and> [(''f'', ''v'')] \<noteq> [] \<and>
   generate_python_code ''http://x/y'' ''post'' [] [] (Some ''[1]'') [(''f'', ''v'')] \<noteq>
   generate_python_code ''http://x/y'' ''post'' [] [] (Some ''[1]'') [] \<and>
   contains (''data = {"f": "v"}'' @ NL)
     (generate_python_code ''http://x/y'' ''post'' [] [] (Some ''[1]'') [(''f'', ''v'')]) \<and>
   contains (''    json=json_body,'' @ NL @ ''    data=data,'' @ NL)
     (generate_python_code ''http://x/y'' ''post'' [] [] (Some ''[1]'') [(''f'', ''v'')])\<close>
  by (simp add: generate_python_code_def present_def str_of_def dumps_defs)

text \<open>
  Claim C1, amended. For every request whose body value is present (and whatever
  its form parameters), the C\#, the JavaScript and the PHP renderer emit the code
  that sends the body, and their text is the text for the same request with no
  form parameter at all: the form parameters are ignored entirely.
\<close>

theorem body_over_form:
  \<open>present body_param \<Longrightarrow>
   generate_csharp_code url method q h body_param form_params =
     generate_csharp_code url method q h body_param [] \<and>
   contains
     (''        var jsonBody = '' @ str_of body_param @ '';'' @ NL @
      ''        var content = new StringContent(JsonConvert.SerializeObject(jsonBody), System.Text.Encoding.UTF8, "application/json");'' @ NL)
     (generate_csharp_code url method q h body_param form_params) \<and>
   generate_javascript_code url method q h body_param form_params =
     generate_javascript_code url method q h body_param [] \<and>
   contains (''    body: JSON.stringify('' @ str_of body_param @ ''),'' @ NL)
     (generate_javascript_code url method q h body_param form_params) \<and>
   generate_php_code url method q h body_param form_params =
     generate_php_code url method q h body_param [] \<and>
   contains (''$data = json_encode('' @ str_of body_param @ '');'' @ NL @
             ''curl_setopt($ch, CURLOPT_POSTFIELDS, $data);'' @ NL)
     (generate_php_code url method q h body_param form_params)\<close>
  by (intro conjI csharp_body_only csharp_body_sent javascript_body_only javascript_body_sent
      php_body_only php_body_sent)

theorem body_over_form_witness:
  \<open>present (Some ''[1]'') \<and>
   generate_csharp_code ''http://x/y'' ''post'' [] [] (Some ''[1]'') [(''f'', ''v'')] =
     generate_csharp_code ''http://x/y'' ''post'' [] [] (Some ''[1]'') [] \<and>
   generate_javascript_code ''http://x/y'' ''post'' [] [] (Some ''[1]'') [(''f'', ''v'')] =
     generate_javascript_code ''http://x/y'' ''post'' [] [] (Some ''[1]'') [] \<and>
   contains (''    body: JSON.stringify('' @ str_of (Some ''[1]'') @ ''),'' @ NL)
     (generate_javascript_code ''http://x/y'' ''post'' [] [] (Some ''[1]'') [(''f'', ''v'')]) \<and>
   generate_php_code ''http://x/y'' ''post'' [] [] (Some ''[1]'') [(''f'', ''v'')] =
     generate_php_code ''http://x/y'' ''post'' [] [] (Some ''[1]'') []\<close>
proof -
  have p: "present (Some ''[1]'')" by (simp add: present_def)
  from body_over_form [OF p, of "''http://x/y''" "''post''" "[]" "[]" "[(''f'', ''v'')]"] p
  show ?thesis by blast
qed

section \<open>Header code\<close>

lemma lower_append: "lower (a @ b) = lower a @ lower b"
  by (simp add: lower_def)

lemma lower_Cons: "lower (c # s) = lower_char c # lower s"
  by (simp add: lower_def)

lemma lower_Nil: "lower [] = []"
  by (simp add: lower_def)

lemma lower_lower_char: "lower_char (lower_char c) = lower_char c"
  by (simp add: text_defs)

lemma lower_capitalize: "lower (capitalize m) = lower m"
  by (cases m) (simp_all add: capitalize_def lower_def lower_upper_char lower_lower_char)

lemma prefix_sep: "c \<notin> set w \<Longrightarrow> prefix w (a @ c # s) \<longleftrightarrow> prefix w a"
  by (auto simp: prefix_append prefix_Cons)

lemma contains_sep:
  "c \<notin> set w \<Longrightarrow> contains w (a @ c # s) \<longleftrightarrow> contains w a \<or> contains w s"
proof (induction a)
  case Nil
  then show ?case by (cases w) auto
next
  case (Cons x a)
  from Cons.prems have "prefix w (x # a @ c # s) \<longleftrightarrow> prefix w (x # a)"
    using prefix_sep [of c w "x # a" s] by simp
  with Cons show ?case by auto
qed

lemma mentions_Nil: "\<not> mentions_header []"
  by (simp add: mentions_header_def lower_def)

lemma mentions_sep_var:
  "lower_char c \<notin> set ''header'' \<Longrightarrow>
   mentions_header (v @ c # s) \<longleftrightarrow> mentions_header v \<or> mentions_header s"
  using contains_sep [of "lower_char c" "''header''" "lower v" "lower s"]
  by (simp add: mentions_header_def lower_def)

lemma prefix_take: "prefix w s \<longleftrightarrow> prefix w (take (length w) s)"
  by (metis prefix_def append_eq_conv_conj take_is_prefix prefix_order.order_trans
      prefix_length_prefix length_take min.cobounded1 nat_le_linear take_all)

lemma mentions_letter:
  "mentions_header (c # s) \<longleftrightarrow>
     prefix ''header'' (lower (take 6 (c # s))) \<or> mentions_header s"
  using prefix_take [of "''header''" "lower (c # s)"]
  by (simp add: mentions_header_def lower_def take_map eval_nat_numeral)

text \<open>A character other than \<open>h\<close> and \<open>H\<close> starts no occurrence.\<close>

lemma mentions_skip:
  "c \<noteq> CHR ''h'' \<Longrightarrow> c \<noteq> CHR ''H'' \<Longrightarrow> mentions_header (c # s) = mentions_header s"
proof -
  assume "c \<noteq> CHR ''h''" "c \<noteq> CHR ''H''"
  then have "lower_char c \<noteq> CHR ''h''"
    by (auto simp: lower_char_def upper_letters_def lower_letters_def)
  then show ?thesis
    by (simp add: mentions_header_def lower_def)
qed

lemma mentions_h:
  "mentions_header (CHR ''h'' # s) = (prefix ''eader'' (lower (take 5 s)) \<or> mentions_header s)"
  "mentions_header (CHR ''H'' # s) = (prefix ''eader'' (lower (take 5 s)) \<or> mentions_header s)"
  using mentions_letter [of "CHR ''h''" s] mentions_letter [of "CHR ''H''" s]
  by (simp_all add: lower_Cons lower_char_def upper_letters_def lower_letters_def)

lemma lower_char_letter:
  "lower_char c \<in> set ''header'' \<Longrightarrow> c \<in> set ''headrHEADR''"
  by (auto simp: lower_char_def upper_letters_def lower_letters_def split: if_splits)

text \<open>A character that is no letter of the word cuts the text in two.\<close>

lemma mentions_var:
  "c \<notin> set ''headrHEADR'' \<Longrightarrow>
   mentions_header (v @ c # s) = (mentions_header v \<or> mentions_header s)"
  using mentions_sep_var [of c v s] lower_char_letter [of c] by blast

lemma mentions_append_sealed:
  assumes "a = [] \<or> last a = CHR 0x0A"
  shows "mentions_header (a @ b) \<longleftrightarrow> mentions_header a \<or> mentions_header b"
proof (cases "a = []")
  case True
  then show ?thesis by (simp add: mentions_Nil)
next
  case False
  with assms have a: "a = butlast a @ [CHR 0x0A]" by (metis append_butlast_last_id)
  have s: "lower_char (CHR 0x0A) \<notin> set ''header''"
    by (simp add: lower_char_def upper_letters_def lower_letters_def)
  have "mentions_header (a @ b) \<longleftrightarrow> mentions_header (butlast a @ CHR 0x0A # b)"
    by (subst a) simp
  also have "\<dots> \<longleftrightarrow> mentions_header (butlast a) \<or> mentions_header b"
    by (rule mentions_sep_var [OF s])
  also have "mentions_header (butlast a) \<longleftrightarrow> mentions_header (butlast a @ CHR 0x0A # [])"
    using mentions_sep_var [OF s, of "butlast a" "[]"] by (simp add: mentions_Nil)
  also have "butlast a @ CHR 0x0A # [] = a" using a by simp
  finally show ?thesis .
qed

text \<open>A block of whole lines, emitted or not, is looked at on its own.\<close>

lemma mentions_block:
  assumes "A = [] \<or> last A = CHR 0x0A" "B = [] \<or> last B = CHR 0x0A"
  shows "mentions_header ((if c then A else B) @ R) \<longleftrightarrow>
     (if c then mentions_header A else mentions_header B) \<or> mentions_header R"
  using assms by (simp add: mentions_append_sealed)

text \<open>The method name of the C\# call runs into \<open>Async\<close>.\<close>

lemma mentions_async:
  "mentions_header (capitalize m @ CHR ''A'' # CHR ''s'' # R) \<longleftrightarrow>
     mentions_header m \<or> mentions_header (CHR ''A'' # CHR ''s'' # R)"
proof -
  have l: "lower (CHR ''A'' # CHR ''s'' # R) = CHR ''a'' # CHR ''s'' # lower R"
    by (simp add: lower_def lower_char_def upper_letters_def lower_letters_def)
  have "\<And>xs1 xs2. ''header'' = xs1 @ xs2 \<Longrightarrow> suffix xs1 (lower m) \<Longrightarrow>
      prefix xs2 (CHR ''a'' # CHR ''s'' # lower R) \<Longrightarrow> sublist ''header'' (lower m)"
    by (auto simp: Cons_eq_append_conv prefix_Cons)
  then show ?thesis
    unfolding mentions_header_def lower_append lower_capitalize l contains_sublist sublist_append
    by blast
qed

lemma mentions_upper: "mentions_header (upper m) = mentions_header m"
  by (simp add: mentions_header_def lower_upper)

lemmas scan = mentions_skip mentions_h mentions_var mentions_Nil mentions_block
  lower_Cons lower_Nil lower_char_def upper_letters_def lower_letters_def

lemma query_string_clean:
  "header_free_items q \<Longrightarrow> \<not> mentions_header (query_string q)"
proof (induction q rule: induct_list012)
  case 1
  then show ?case by (simp add: query_string_def mentions_Nil)
next
  case (2 x)
  then show ?case
    by (cases x) (simp add: query_string_def header_free_items_def scan)
next
  case (3 x y zs)
  then show ?case
    by (cases x) (simp add: query_string_def header_free_items_def scan)
qed

lemma csharp_lines_clean:
  \<open>header_free_items d \<Longrightarrow>
   \<not> mentions_header (concat (map (\<lambda>(k, v).
          ''            new KeyValuePair<string, string>("'' @ k @ ''", "'' @ v @ ''"),'' @ NL) d))\<close>
  by (induction d) (auto simp: header_free_items_def scan)

lemma javascript_lines_clean:
  "header_free_items d \<Longrightarrow>
   \<not> mentions_header (concat (map (\<lambda>(k, v).
          ''        '' @ SQ @ k @ SQ @ '': '' @ SQ @ v @ SQ @ '','' @ NL) d))"
  by (induction d) (auto simp: header_free_items_def scan)

lemma php_lines_clean:
  "header_free_items d \<Longrightarrow>
   \<not> mentions_header (concat (map (\<lambda>(k, v).
          ''    '' @ SQ @ k @ SQ @ '' => '' @ SQ @ v @ SQ @ '','' @ NL) d))"
  by (induction d) (auto simp: header_free_items_def scan)

lemma csharp_no_headers:
  assumes "\<not> mentions_header url" "\<not> mentions_header method" "header_free_items q"
    "\<not> mentions_header (str_of body_param)" "header_free_items form_params"
  shows "\<not> mentions_header (generate_csharp_code url method q [] body_param form_params)"
  using assms query_string_clean [of q] csharp_lines_clean [of form_params]
  by (simp add: generate_csharp_code_def scan mentions_async)

lemma javascript_no_headers:
  assumes "\<not> mentions_header url" "\<not> mentions_header method" "header_free_items q"
    "\<not> mentions_header (str_of body_param)" "header_free_items form_params"
  shows "\<not> mentions_header (generate_javascript_code url method q [] body_param form_params)"
  using assms query_string_clean [of q] javascript_lines_clean [of form_params]
  by (simp add: generate_javascript_code_def scan mentions_upper)

lemma php_no_headers:
  assumes "\<not> mentions_header url" "\<not> mentions_header method" "header_free_items q"
    "\<not> mentions_header (str_of body_param)" "header_free_items form_params"
  shows "\<not> mentions_header (generate_php_code url method q [] body_param form_params)"
  using assms query_string_clean [of q] php_lines_clean [of form_params]
  by (simp add: generate_php_code_def scan mentions_upper)

lemma python_headers_assigned:
  "contains (''headers = {}'' @ NL) (generate_python_code url method q [] body_param form_params)"
  unfolding generate_python_code_def
  apply (simp only: simp_thms if_False)
  apply (rule contains_head | rule contains_appendI)+
  done

lemma contains_head2: "contains (x @ y) (x @ y @ z)"
  by (rule contains_prefixI) simp

lemma python_headers_passed:
  "contains (''    headers=headers,'' @ NL)
     (generate_python_code url method q h body_param form_params)"
  unfolding generate_python_code_def
  by (rule contains_head2 | rule contains_appendI)+

text \<open>
  Claim C3, as stated, read at the request of the specification's own example,
  which has no header parameter: the Python text assigns \<open>headers = {}\<close> and passes
  \<open>headers=headers\<close> to the call.
\<close>

theorem python_header_code_counterexample:
  "mentions_header
     (generate_python_code ''http://x/y'' ''post'' [(''a'', ''1'')] [] None [(''f'', ''v'')]) \<and>
   contains (''headers = {}'' @ NL)
     (generate_python_code ''http://x/y'' ''post'' [(''a'', ''1'')] [] None [(''f'', ''v'')]) \<and>
   contains (''    headers=headers,'' @ NL)
     (generate_python_code ''http://x/y'' ''post'' [(''a'', ''1'')] [] None [(''f'', ''v'')])"
  by (simp add: generate_python_code_def present_def dumps_defs scan)

text \<open>
  Claim C3, amended. For every input whose header-parameter map is empty and whose
  other parts (URL, method, query and form items, body text) do not themselves hold
  the word \<open>header\<close>, the text of the C\#, the JavaScript and the PHP renderer
  holds no header code: the word \<open>header\<close> occurs nowhere in it, in whatever case.
  The Python renderer, for its part, always passes \<open>headers=headers\<close> and assigns
  \<open>headers = {}\<close> when there is no header parameter.
\<close>

theorem no_header_code_without_headers:
  "\<not> mentions_header url \<Longrightarrow> \<not> mentions_header method \<Longrightarrow> header_free_items q \<Longrightarrow>
   \<not> mentions_header (str_of body_param) \<Longrightarrow> header_free_items form_params \<Longrightarrow>
   \<not> mentions_header (generate_csharp_code url method q [] body_param form_params) \<and>
   \<not> mentions_header (generate_javascript_code url method q [] body_param form_params) \<and>
   \<not> mentions_header (generate_php_code url method q [] body_param form_params) \<and>
   contains (''headers = {}'' @ NL)
     (generate_python_code url method q [] body_param form_params) \<and>
   contains (''    headers=headers,'' @ NL)
     (generate_python_code url method q [] body_param form_params)"
  by (intro conjI csharp_no_headers javascript_no_headers php_no_headers
      python_headers_assigned python_headers_passed)

theorem no_header_code_without_headers_witness:
  "\<not> mentions_header ''http://x/y'' \<and> \<not> mentions_header ''post'' \<and>
   header_free_items [(''a'', ''1'')] \<and> \<not> mentions_header (str_of None) \<and>
   header_free_items [(''f'', ''v'')] \<and>
   \<not> mentions_header
      (generate_csharp_code ''http://x/y'' ''post'' [(''a'', ''1'')] [] None [(''f'', ''v'')]) \<and>
   \<not> mentions_header
      (generate_javascript_code ''http://x/y'' ''post'' [(''a'', ''1'')] [] None [(''f'', ''v'')]) \<and>
   \<not> mentions_header
      (generate_php_code ''http://x/y'' ''post'' [(''a'', ''1'')] [] None [(''f'', ''v'')])"
proof -
  have h: "\<not> mentions_header ''http://x/y''" "\<not> mentions_header ''post''"
    "header_free_items [(''a'', ''1'')]" "\<not> mentions_header (str_of None)"
    "header_free_items [(''f'', ''v'')]"
    by (simp_all add: header_free_items_def str_of_def scan)
  from no_header_code_without_headers [OF h] h show ?thesis by blast
qed

end
